theory Spec2Isabelle
  imports Complex_Main "HOL-Library.Multiset"
begin

section \<open>JavaScript strings and regular expressions\<close>

text \<open>
  Strings are byte strings (\<^typ>\<open>string\<close>): a text in its UTF-8 encoding, where a
  character of ASCII is one byte and no byte of another character is a byte of ASCII. The
  keywords and the patterns of the program are made of ASCII letters, of \<open>\d\<close> (the ten
  ASCII digits) and of \<open>\s\<close>. \<open>toLowerCase\<close> is modelled on ASCII: it maps the letters A to
  Z to a to z and leaves every other byte as it is.
\<close>

definition upper_letters :: string where
  "upper_letters = ''ABCDEFGHIJKLMNOPQRSTUVWXYZ''"

definition lower_letters :: string where
  "lower_letters = ''abcdefghijklmnopqrstuvwxyz''"

definition lower_char :: "char \<Rightarrow> char" where
  "lower_char c = (case map_of (zip upper_letters lower_letters) c of Some l \<Rightarrow> l | None \<Rightarrow> c)"

definition toLowerCase :: "string \<Rightarrow> string" where
  "toLowerCase s = map lower_char s"

text \<open>\<open>s.startsWith(t)\<close> and \<open>s.includes(t)\<close> (here \<open>includes_str\<close>): \<open>t\<close> occurs in \<open>s\<close> as a contiguous run.\<close>

fun startsWith :: "string \<Rightarrow> string \<Rightarrow> bool" where
  "startsWith s [] = True"
| "startsWith [] (c # cs) = False"
| "startsWith (x # xs) (c # cs) = (x = c \<and> startsWith xs cs)"

fun includes_str :: "string \<Rightarrow> string \<Rightarrow> bool" where
  "includes_str [] t = (t = [])"
| "includes_str (x # xs) t = (startsWith (x # xs) t \<or> includes_str xs t)"

definition is_digit :: "char \<Rightarrow> bool" where
  "is_digit c = (c \<in> set ''0123456789'')"

text \<open>
  The class \<open>\s\<close>: the white space and the line terminators of JavaScript, each in its
  UTF-8 encoding. They are tab, line feed, vertical tab, form feed, carriage return and
  space, then U+00A0, U+1680, U+2000 to U+200A, U+2028, U+2029, U+202F, U+205F, U+3000 and
  U+FEFF. \<open>space_length s\<close> is the number of bytes of the white-space character that \<open>s\<close>
  starts with, and 0 when it starts with none.
\<close>

definition white_space :: "string list" where
  "white_space =
     [[CHR 0x09], [CHR 0x0A], [CHR 0x0B], [CHR 0x0C], [CHR 0x0D], [CHR 0x20],
      [CHR 0xC2, CHR 0xA0],
      [CHR 0xE1, CHR 0x9A, CHR 0x80],
      [CHR 0xE2, CHR 0x80, CHR 0x80], [CHR 0xE2, CHR 0x80, CHR 0x81],
      [CHR 0xE2, CHR 0x80, CHR 0x82], [CHR 0xE2, CHR 0x80, CHR 0x83],
      [CHR 0xE2, CHR 0x80, CHR 0x84], [CHR 0xE2, CHR 0x80, CHR 0x85],
      [CHR 0xE2, CHR 0x80, CHR 0x86], [CHR 0xE2, CHR 0x80, CHR 0x87],
      [CHR 0xE2, CHR 0x80, CHR 0x88], [CHR 0xE2, CHR 0x80, CHR 0x89],
      [CHR 0xE2, CHR 0x80, CHR 0x8A],
      [CHR 0xE2, CHR 0x80, CHR 0xA8], [CHR 0xE2, CHR 0x80, CHR 0xA9],
      [CHR 0xE2, CHR 0x80, CHR 0xAF],
      [CHR 0xE2, CHR 0x81, CHR 0x9F],
      [CHR 0xE3, CHR 0x80, CHR 0x80],
      [CHR 0xEF, CHR 0xBB, CHR 0xBF]]"

definition space_length :: "string \<Rightarrow> nat" where
  "space_length s = (case find (startsWith s) white_space of None \<Rightarrow> 0 | Some w \<Rightarrow> length w)"

text \<open>
  The fragment of regular expressions that the program uses, run by backtracking as
  JavaScript does: a matcher state is the rest of the input with the captures made so
  far, and \<open>run r st\<close> lists the states after \<open>r\<close> in the order in which backtracking
  tries them (the left alternative first, the longest repetition first). A repetition
  accepts another round only when the round consumed input. \<open>Chr\<close> is a class of
  single bytes; \<open>Cls\<close> is a class of encoded characters, given by the number of bytes of
  its member at the start of the input (0 when there is none).
\<close>

datatype re =
    Chr "char \<Rightarrow> bool"
  | Eps
  | Seq re re
  | Alt re re
  | Star re
  | Grp nat re
  | Cls "string \<Rightarrow> nat"

type_synonym mstate = "string \<times> (nat \<times> string) list"

fun run :: "re \<Rightarrow> mstate \<Rightarrow> mstate list" where
  "run (Chr P) (s, c) = (case s of [] \<Rightarrow> [] | x # xs \<Rightarrow> if P x then [(xs, c)] else [])"
| "run Eps st = [st]"
| "run (Seq a b) st = concat (map (run b) (run a st))"
| "run (Alt a b) st = run a st @ run b st"
| "run (Star a) (s, c) =
     concat (map (\<lambda>(s', c'). if length s' < length s then run (Star a) (s', c') else [])
                 (run a (s, c))) @ [(s, c)]"
| "run (Grp i a) (s, c) =
     map (\<lambda>(s', c'). (s', (i, take (length s - length s') s) # c')) (run a (s, c))"
| "run (Cls k) (s, c) = (if 0 < k s then [(drop (k s) s, c)] else [])"

definition lit :: "char \<Rightarrow> re" where
  "lit c = Chr (\<lambda>x. x = c)"

text \<open>A letter of a pattern under the flag \<open>i\<close> (the pattern's letters are lower case).\<close>

definition lit_i :: "char \<Rightarrow> re" where
  "lit_i c = Chr (\<lambda>x. lower_char x = c)"

definition lits :: "string \<Rightarrow> re" where
  "lits s = foldr (\<lambda>c r. Seq (lit c) r) s Eps"

definition lits_i :: "string \<Rightarrow> re" where
  "lits_i s = foldr (\<lambda>c r. Seq (lit_i c) r) s Eps"

definition digit :: re where
  "digit = Chr is_digit"

definition space :: re where
  "space = Cls space_length"

definition Plus :: "re \<Rightarrow> re" where
  "Plus a = Seq a (Star a)"

definition Opt :: "re \<Rightarrow> re" where
  "Opt a = Alt a Eps"

text \<open>The match of a pattern at the start of the input: the captures of the first success.\<close>

definition exec_at :: "re \<Rightarrow> string \<Rightarrow> (nat \<rightharpoonup> string) option" where
  "exec_at r s = (case run r (s, []) of [] \<Rightarrow> None | (rest, caps) # _ \<Rightarrow> Some (map_of caps))"

text \<open>
  \<open>s.match(r)\<close> for a pattern without the flag \<open>g\<close>: the match at the least start index, from
  index 0 to the end of the string; \<open>None\<close> is \<open>null\<close>. The result maps a group's number to
  what it captured.
\<close>

fun match :: "string \<Rightarrow> re \<Rightarrow> (nat \<rightharpoonup> string) option" where
  "match [] r = exec_at r []"
| "match (x # xs) r = (case exec_at r (x # xs) of Some m \<Rightarrow> Some m | None \<Rightarrow> match xs r)"

subsection \<open>Numbers\<close>

text \<open>
  \<open>Number.parseInt\<close> is only ever applied to a capture of \<open>\d+\<close>. It reads the leading
  decimal digits; a value up to \<open>Number.MAX_SAFE_INTEGER\<close> is the number itself, a larger one
  is rounded to a double, which is not modelled further. A string that starts with no digit
  gives \<open>NaN\<close> (signs, white space and radix prefixes do not occur in a capture of digits).
\<close>

datatype jsint = Exact nat | Rounded | NaN

definition digit_value :: "char \<Rightarrow> nat" where
  "digit_value c = of_char c - 48"

definition decimal :: "string \<Rightarrow> nat" where
  "decimal ds = foldl (\<lambda>a c. 10 * a + digit_value c) 0 ds"

definition MAX_SAFE_INTEGER :: nat where
  "MAX_SAFE_INTEGER = 9007199254740991"

definition parseInt :: "string \<Rightarrow> jsint" where
  "parseInt s =
     (let ds = takeWhile is_digit s
      in if ds = [] then NaN
         else if decimal ds \<le> MAX_SAFE_INTEGER then Exact (decimal ds) else Rounded)"

section \<open>The profile synthesizer: \<open>NetCDFProcessor.processNetCDFFile\<close>\<close>

datatype thrown = Error string | NonError

text \<open>
  The part of \<open>ArgoProfile\<close> that the file name and the fixed depth tables decide. The
  profile date, the position and the readings at each depth come from the clock and from
  \<open>Math.random\<close>; they are outside this model.
\<close>

record ArgoProfile =
  floatId :: string
  platformNumber :: string
  cycleNumber :: jsint
  measurements :: "nat list"
  bgcData :: "nat list"

definition generateDepthMeasurements :: "nat list" where
  "generateDepthMeasurements =
     [5, 10, 20, 30, 50, 75, 100, 125, 150, 200, 250, 300, 400, 500, 600, 750, 1000, 1250,
      1500, 1750, 2000]"

definition generateBGCMeasurements :: "nat list" where
  "generateBGCMeasurements =
     [5, 10, 20, 30, 50, 75, 100, 125, 150, 200, 250, 300, 400, 500, 600, 750, 1000]"

text \<open>
  The pattern \<^verbatim>\<open>/R(\d+)_(\d+)\.nc/\<close>. It has no anchors, so \<open>match\<close> looks for it
  anywhere in the file name. Both groups take part in every match of it; the last case of
  \<open>processNetCDFFile\<close> below makes the definition total and is never reached.
\<close>

definition re_filename :: re where
  "re_filename =
     Seq (lit CHR ''R'') (Seq (Grp 1 (Plus digit)) (Seq (lit CHR ''_'')
       (Seq (Grp 2 (Plus digit)) (lits ''.nc''))))"

definition processNetCDFFile :: "string \<Rightarrow> thrown + ArgoProfile" where
  "processNetCDFFile filename =
     (case match filename re_filename of
        None \<Rightarrow> Inl (Error (''Invalid NetCDF filename format: '' @ filename))
      | Some floatMatch \<Rightarrow>
          (case (floatMatch 1, floatMatch 2) of
             (Some g1, Some g2) \<Rightarrow>
               Inr \<lparr> floatId = g1, platformNumber = g1, cycleNumber = parseInt g2,
                     measurements = generateDepthMeasurements,
                     bgcData = generateBGCMeasurements \<rparr>
           | _ \<Rightarrow> Inl NonError))"

section \<open>The ocean-region lookup\<close>

text \<open>The method is written twice, in the embeddings generator and in the chat processor.\<close>

definition VectorEmbeddingsGenerator_getOceanRegion :: "real \<Rightarrow> real \<Rightarrow> string" where
  "VectorEmbeddingsGenerator_getOceanRegion lat lon =
     (if lat \<ge> 0 \<and> lat \<le> 30 \<and> lon \<ge> 40 \<and> lon \<le> 100 then ''Arabian Sea''
      else if lat \<ge> -30 \<and> lat \<le> 30 \<and> lon \<ge> 20 \<and> lon \<le> 120 then ''Indian Ocean''
      else if lat \<ge> -10 \<and> lat \<le> 30 \<and> lon \<ge> 90 \<and> lon \<le> 120 then ''Bay of Bengal''
      else ''Indian Ocean region'')"

definition getOceanRegion :: "real \<Rightarrow> real \<Rightarrow> string" where
  "getOceanRegion lat lon =
     (if lat \<ge> 0 \<and> lat \<le> 30 \<and> lon \<ge> 40 \<and> lon \<le> 100 then ''Arabian Sea''
      else if lat \<ge> -30 \<and> lat \<le> 30 \<and> lon \<ge> 20 \<and> lon \<le> 120 then ''Indian Ocean''
      else if lat \<ge> -10 \<and> lat \<le> 30 \<and> lon \<ge> 90 \<and> lon \<le> 120 then ''Bay of Bengal''
      else ''Indian Ocean region'')"

section \<open>The query classifier: \<open>ChatProcessor.analyzeQuery\<close>\<close>

record parameters =
  p_floatId :: "string option"
  p_depth :: "jsint option"
  p_date :: "string option"

text \<open>
  The patterns of \<open>extractParameters\<close>: \<^verbatim>\<open>/float\s+(\d+)/i\<close>, \<^verbatim>\<open>/(\d{7})/\<close>,
  \<^verbatim>\<open>/(\d+)\s*(?:m|meter|metre)/i\<close> and \<^verbatim>\<open>/(\d{4}[-/]\d{1,2}[-/]\d{1,2})/\<close>.
\<close>

definition re_float :: re where
  "re_float = Seq (lits_i ''float'') (Seq (Plus space) (Grp 1 (Plus digit)))"

definition re_digits7 :: re where
  "re_digits7 =
     Grp 1 (Seq digit (Seq digit (Seq digit (Seq digit (Seq digit (Seq digit digit))))))"

definition re_depth :: re where
  "re_depth =
     Seq (Grp 1 (Plus digit)) (Seq (Star space)
       (Alt (lits_i ''m'') (Alt (lits_i ''meter'') (lits_i ''metre''))))"

definition dash_or_slash :: re where
  "dash_or_slash = Chr (\<lambda>x. x = CHR ''-'' \<or> x = CHR ''/'')"

definition re_date :: re where
  "re_date =
     Grp 1 (Seq digit (Seq digit (Seq digit (Seq digit
       (Seq dash_or_slash (Seq digit (Seq (Opt digit)
         (Seq dash_or_slash (Seq digit (Opt digit))))))))))"

text \<open>
  A property of \<open>params\<close> is set only when its pattern matched; \<open>None\<close> is a property
  that is absent.
\<close>

definition extractParameters :: "string \<Rightarrow> parameters" where
  "extractParameters query =
     (let floatMatch = (case match query re_float of Some m \<Rightarrow> Some m
                        | None \<Rightarrow> match query re_digits7);
          depthMatch = match query re_depth;
          dateMatch = match query re_date
      in \<lparr> p_floatId = (case floatMatch of None \<Rightarrow> None | Some m \<Rightarrow> m 1),
            p_depth = (case depthMatch of None \<Rightarrow> None
                       | Some m \<Rightarrow> (case m 1 of None \<Rightarrow> Some NaN | Some g \<Rightarrow> Some (parseInt g))),
            p_date = (case dateMatch of None \<Rightarrow> None | Some m \<Rightarrow> m 1) \<rparr>)"

record analysis =
  type :: string
  params :: parameters
  visualizations :: "string list"
  dataNeeded :: "string list"

definition analyzeQuery :: "string \<Rightarrow> analysis" where
  "analyzeQuery query =
     (let lowerQuery = toLowerCase query in
      if includes_str lowerQuery ''temperature'' \<or> includes_str lowerQuery ''temp'' then
        \<lparr> type = ''temperature_query'', params = extractParameters query,
          visualizations = [''temperature_profile'', ''depth_chart''],
          dataNeeded = [''depth_measurements''] \<rparr>
      else if includes_str lowerQuery ''salinity'' \<or> includes_str lowerQuery ''salt'' then
        \<lparr> type = ''salinity_query'', params = extractParameters query,
          visualizations = [''salinity_profile'', ''depth_chart''],
          dataNeeded = [''depth_measurements''] \<rparr>
      else if includes_str lowerQuery ''oxygen'' \<or> includes_str lowerQuery ''nitrate''
              \<or> includes_str lowerQuery ''ph'' \<or> includes_str lowerQuery ''chlorophyll'' then
        \<lparr> type = ''bgc_query'', params = extractParameters query,
          visualizations = [''bgc_profile'', ''oxygen_chart''],
          dataNeeded = [''bgc_measurements''] \<rparr>
      else if includes_str lowerQuery ''float''
              \<and> (includes_str lowerQuery ''location'' \<or> includes_str lowerQuery ''position'') then
        \<lparr> type = ''float_location_query'', params = extractParameters query,
          visualizations = [''map'', ''trajectory''],
          dataNeeded = [''argo_floats'', ''ocean_profiles''] \<rparr>
      else if includes_str lowerQuery ''compare'' \<or> includes_str lowerQuery ''difference''
              \<or> includes_str lowerQuery ''vs'' then
        \<lparr> type = ''comparison_query'', params = extractParameters query,
          visualizations = [''comparison_chart'', ''overlay_plot''],
          dataNeeded = [''depth_measurements'', ''bgc_measurements''] \<rparr>
      else
        \<lparr> type = ''general_query'', params = extractParameters query,
          visualizations = [''summary_chart''],
          dataNeeded = [''ocean_profiles'', ''depth_measurements''] \<rparr>)"

section \<open>Rows of the store\<close>

text \<open>
  The tables are those of the repository's schema script. A column that may be \<open>NULL\<close>
  is an option (\<open>None\<close> is \<open>null\<close>); an embedded resource of a select is a field of the row
  that embeds it. Time stamps of the response templates are the store's text; the creation
  time that two tables are ordered by is a number.
\<close>

record argo_float =
  float_id :: string
  deployment_latitude :: "real option"
  deployment_longitude :: "real option"
  status :: "string option"
  last_transmission :: "string option"

record depth_measurement =
  depth_meters :: real
  temperature_celsius :: "real option"
  salinity_psu :: "real option"

record ocean_profile =
  profile_float_id :: "string option"
  profile_date :: string
  latitude :: real
  longitude :: real
  argo_floats :: "argo_float option"
  depth_measurements :: "depth_measurement list"

text \<open>
  What \<open>retrieveRelevantData\<close> collects: rows of \<open>argo_floats\<close>, rows of \<open>ocean_profiles\<close>
  with their embedded float and measurements, and rows of \<open>depth_measurements\<close>.
\<close>

datatype row = FloatRow argo_float | ProfileRow ocean_profile | MeasurementRow depth_measurement

text \<open>
  A value that is a number, \<open>null\<close> or \<open>undefined\<close>. In a comparison \<open>null\<close> counts as 0
  and \<open>undefined\<close> as \<open>NaN\<close>, for which every comparison is false.
\<close>

datatype jsnum = Num real | Null | Undefined

definition of_column :: "real option \<Rightarrow> jsnum" where
  "of_column v = (case v of None \<Rightarrow> Null | Some x \<Rightarrow> Num x)"

definition truthy_num :: "jsnum \<Rightarrow> bool" where
  "truthy_num v = (case v of Num x \<Rightarrow> x \<noteq> 0 | _ \<Rightarrow> False)"

definition region_of :: "jsnum \<Rightarrow> jsnum \<Rightarrow> string" where
  "region_of lat lon =
     (case (lat, lon) of
        (Undefined, _) \<Rightarrow> ''Indian Ocean region''
      | (_, Undefined) \<Rightarrow> ''Indian Ocean region''
      | (a, b) \<Rightarrow> getOceanRegion (case a of Num x \<Rightarrow> x | _ \<Rightarrow> 0) (case b of Num y \<Rightarrow> y | _ \<Rightarrow> 0))"

text \<open>
  The renderings of numbers and dates and the messages of a \<open>TypeError\<close> are the JavaScript
  runtime's; the program takes them as given: \<open>toFixed d x\<close> for \<open>x.toFixed(d)\<close>,
  \<open>numberToString x\<close> for a number inside a template, \<open>toLocaleDateString t\<close> for
  \<open>new Date(t).toLocaleDateString()\<close> (\<open>None\<close> is a date made from \<open>undefined\<close>),
  \<open>toISOString t\<close> for a creation time in a JSON body.
\<close>

record rendering =
  toFixed :: "nat \<Rightarrow> real \<Rightarrow> string"
  numberToString :: "real \<Rightarrow> string"
  toLocaleDateString :: "string option \<Rightarrow> string"
  toISOString :: "nat \<Rightarrow> string"
  cannot_destructure :: string
  not_a_function :: string

text \<open>\<open>v?.toFixed(d)\<close> inside a template: \<open>undefined\<close> prints as the word.\<close>

definition toFixed_opt :: "rendering \<Rightarrow> nat \<Rightarrow> jsnum \<Rightarrow> string" where
  "toFixed_opt R d v = (case v of Num x \<Rightarrow> toFixed R d x | _ \<Rightarrow> ''undefined'')"

text \<open>A length inside a template, in decimal.\<close>

fun show_nat :: "nat \<Rightarrow> string" where
  "show_nat n =
     (if n < 10 then [''0123456789'' ! n]
      else show_nat (n div 10) @ [''0123456789'' ! (n mod 10)])"

declare show_nat.simps [simp del]

text \<open>The characters of the templates outside ASCII, in UTF-8, and the line break.\<close>

definition bullet :: string where
  "bullet = [CHR 0xE2, CHR 0x80, CHR 0xA2]"

definition degree :: string where
  "degree = [CHR 0xC2, CHR 0xB0]"

definition mu :: string where
  "mu = [CHR 0xCE, CHR 0xBC]"

definition nl :: string where
  "nl = [CHR 0x0A]"

section \<open>The response generator\<close>

text \<open>The properties of a row as the templates read them; \<open>None\<close> is \<open>undefined\<close> or \<open>null\<close>.\<close>

definition row_float_id :: "row \<Rightarrow> string option" where
  "row_float_id d =
     (case d of FloatRow f \<Rightarrow> Some (float_id f) | ProfileRow p \<Rightarrow> profile_float_id p
      | MeasurementRow m \<Rightarrow> None)"

definition row_argo_floats :: "row \<Rightarrow> argo_float option" where
  "row_argo_floats d = (case d of ProfileRow p \<Rightarrow> argo_floats p | _ \<Rightarrow> None)"

definition max_depth :: "rendering \<Rightarrow> depth_measurement list \<Rightarrow> string" where
  "max_depth R ms =
     (if ms = [] then ''-Infinity'' else numberToString R (Max (set (map depth_meters ms))))"

definition generateTemperatureResponse :: "rendering \<Rightarrow> analysis \<Rightarrow> row list \<Rightarrow> string" where
  "generateTemperatureResponse R analysis data =
     (if length data = 0 then
        ''I don't have temperature data available for your query. Please try asking about a specific ARGO float ID or check if the data has been processed.''
      else
        (let generic = ''I found temperature data from recent ARGO profiles. The data shows typical tropical Indian Ocean characteristics with warm surface waters (28-29'' @ degree @ ''C) decreasing to about 4'' @ degree @ ''C at 2000m depth. Would you like me to show you a specific float's temperature profile?''
         in case p_floatId (params analysis) of
              None \<Rightarrow> generic
            | Some fid \<Rightarrow>
                if fid = [] then generic
                else
                  (case find (\<lambda>d. row_float_id d = Some fid
                                   \<or> map_option float_id (row_argo_floats d) = Some fid) data of
                     Some (ProfileRow profileData) \<Rightarrow>
                       (let ms = depth_measurements profileData;
                            surfaceTemp = (case find (\<lambda>m. depth_meters m \<le> 10) ms of
                                             None \<Rightarrow> Undefined
                                           | Some m \<Rightarrow> of_column (temperature_celsius m));
                            deepTemp = (if ms = [] then Undefined
                                        else of_column (temperature_celsius (last ms)));
                            maxDepth = max_depth R ms
                        in ''Temperature profile for ARGO float '' @ fid @ '':'' @ nl @ nl
                           @ bullet @ '' Surface temperature: '' @ toFixed_opt R 1 surfaceTemp
                           @ degree @ ''C'' @ nl
                           @ bullet @ '' Deep temperature: '' @ toFixed_opt R 1 deepTemp
                           @ degree @ ''C at '' @ maxDepth @ ''m'' @ nl
                           @ bullet @ '' Profile shows typical ''
                           @ getOceanRegion (latitude profileData) (longitude profileData)
                           @ '' thermal structure'' @ nl
                           @ bullet @ '' Data collected on ''
                           @ toLocaleDateString R (Some (profile_date profileData)) @ nl @ nl
                           @ ''The temperature decreases with depth, showing the typical thermocline structure of tropical waters.'')
                   | _ \<Rightarrow> generic)))"

definition generateSalinityResponse :: "rendering \<Rightarrow> analysis \<Rightarrow> row list \<Rightarrow> string" where
  "generateSalinityResponse R analysis data =
     (if length data = 0 then
        ''I don't have salinity data available for your query. Please specify an ARGO float ID or check if the data has been processed.''
      else
        ''Salinity data from ARGO floats shows typical Arabian Sea characteristics with surface values around 34.8-35.2 PSU. The salinity profile indicates the influence of high evaporation rates in this region, with a subsurface salinity maximum around 100-200m depth.'')"

definition generateBGCResponse :: "rendering \<Rightarrow> analysis \<Rightarrow> row list \<Rightarrow> string" where
  "generateBGCResponse R analysis data =
     (if length data = 0 then
        ''I don't have biogeochemical data available for your query. BGC data is available from select ARGO floats with biogeochemical sensors.''
      else
        ''Biogeochemical data shows interesting patterns:'' @ nl @ nl
        @ bullet @ '' Oxygen: High surface concentrations (220+ '' @ mu @ ''mol/kg) decreasing to minimum values around 500m depth'' @ nl
        @ bullet @ '' Nitrate: Low surface values increasing with depth, typical of nutrient cycling'' @ nl
        @ bullet @ '' pH: Surface values around 8.1 decreasing slightly with depth'' @ nl
        @ bullet @ '' Chlorophyll: Maximum concentrations in the upper 100m where photosynthesis occurs'' @ nl @ nl
        @ ''This data reveals the complex biogeochemical processes in the Indian Ocean.'')"

definition row_latitude :: "row \<Rightarrow> jsnum" where
  "row_latitude d = (case d of ProfileRow p \<Rightarrow> Num (latitude p) | _ \<Rightarrow> Undefined)"

definition row_longitude :: "row \<Rightarrow> jsnum" where
  "row_longitude d = (case d of ProfileRow p \<Rightarrow> Num (longitude p) | _ \<Rightarrow> Undefined)"

definition row_deployment_latitude :: "row \<Rightarrow> jsnum" where
  "row_deployment_latitude d =
     (case d of FloatRow f \<Rightarrow> of_column (deployment_latitude f) | _ \<Rightarrow> Undefined)"

definition row_deployment_longitude :: "row \<Rightarrow> jsnum" where
  "row_deployment_longitude d =
     (case d of FloatRow f \<Rightarrow> of_column (deployment_longitude f) | _ \<Rightarrow> Undefined)"

definition row_status :: "row \<Rightarrow> string option" where
  "row_status d = (case d of FloatRow f \<Rightarrow> status f | _ \<Rightarrow> None)"

definition row_last_transmission :: "row \<Rightarrow> string option" where
  "row_last_transmission d = (case d of FloatRow f \<Rightarrow> last_transmission f | _ \<Rightarrow> None)"

definition row_profile_date :: "row \<Rightarrow> string option" where
  "row_profile_date d = (case d of ProfileRow p \<Rightarrow> Some (profile_date p) | _ \<Rightarrow> None)"

text \<open>A string property is truthy when it is there and not empty.\<close>

definition truthy_str :: "string option \<Rightarrow> bool" where
  "truthy_str v = (case v of None \<Rightarrow> False | Some s \<Rightarrow> s \<noteq> [])"

definition generateLocationResponse :: "rendering \<Rightarrow> analysis \<Rightarrow> row list \<Rightarrow> string" where
  "generateLocationResponse R analysis data =
     (if length data = 0 then
        ''I don't have location data for the requested float. Please check the float ID or try a different query.''
      else
        (case find (\<lambda>d. truthy_str (row_float_id d) \<or> row_argo_floats d \<noteq> None) data of
           Some floatData \<Rightarrow>
             (let lat = (if truthy_num (row_latitude floatData) then row_latitude floatData
                         else row_deployment_latitude floatData);
                  lon = (if truthy_num (row_longitude floatData) then row_longitude floatData
                         else row_deployment_longitude floatData);
                  region = region_of lat lon
              in ''ARGO float location information:'' @ nl @ nl
                 @ bullet @ '' Current/Last position: '' @ toFixed_opt R 2 lat @ degree @ ''N, ''
                 @ toFixed_opt R 2 lon @ degree @ ''E'' @ nl
                 @ bullet @ '' Region: '' @ region @ nl
                 @ bullet @ '' Status: ''
                 @ (if truthy_str (row_status floatData) then the (row_status floatData)
                    else ''Active'') @ nl
                 @ bullet @ '' Last transmission: ''
                 @ toLocaleDateString R
                     (if truthy_str (row_last_transmission floatData)
                      then row_last_transmission floatData else row_profile_date floatData)
                 @ nl @ nl
                 @ ''This float is operating in the '' @ region
                 @ '', providing valuable oceanographic data for climate research.'')
         | None \<Rightarrow>
             ''I found location data for ARGO floats in the Indian Ocean region. These autonomous instruments drift with ocean currents while collecting temperature, salinity, and biogeochemical data.''))"

definition generateComparisonResponse :: "rendering \<Rightarrow> analysis \<Rightarrow> row list \<Rightarrow> string" where
  "generateComparisonResponse R analysis data =
     ''Comparison analysis shows variations in oceanographic parameters across different locations and time periods. The data reveals spatial and temporal patterns that are important for understanding ocean dynamics and climate variability in the Indian Ocean region.''"

definition generateGeneralResponse :: "rendering \<Rightarrow> analysis \<Rightarrow> row list \<Rightarrow> string" where
  "generateGeneralResponse R analysis data =
     (if length data = 0 then
        ''I don't have specific data to answer your query. Try asking about:'' @ nl @ nl
        @ bullet @ '' Temperature profiles for a specific float'' @ nl
        @ bullet @ '' Salinity data in the Arabian Sea'' @ nl
        @ bullet @ '' Oxygen levels at different depths'' @ nl
        @ bullet @ '' Float locations and trajectories'' @ nl @ nl
        @ ''You can reference specific ARGO float IDs (like 5906468) for detailed information.''
      else
        ''I found '' @ show_nat (length data) @ '' relevant records in the ARGO database. The data includes temperature, salinity, and biogeochemical measurements from autonomous floats in the Indian Ocean region. This information is valuable for understanding ocean conditions and climate patterns. Would you like me to provide more specific details about any particular aspect?'')"

definition generateResponse :: "rendering \<Rightarrow> analysis \<Rightarrow> row list \<Rightarrow> string" where
  "generateResponse R analysis data =
     (if type analysis = ''temperature_query'' then generateTemperatureResponse R analysis data
      else if type analysis = ''salinity_query'' then generateSalinityResponse R analysis data
      else if type analysis = ''bgc_query'' then generateBGCResponse R analysis data
      else if type analysis = ''float_location_query'' then generateLocationResponse R analysis data
      else if type analysis = ''comparison_query'' then generateComparisonResponse R analysis data
      else generateGeneralResponse R analysis data)"

section \<open>The store as the handlers see it\<close>

text \<open>
  A call to the store answers with rows, with \<open>data\<close> \<open>null\<close>, with an error object, or
  the awaited call throws.
\<close>

datatype 'a reply = Rows "'a list" | NoData | Failed string | Throws thrown

datatype fault = Healthy | ReturnsNull | ReturnsError string | Rejects thrown

definition answer :: "fault \<Rightarrow> 'a list \<Rightarrow> 'a reply" where
  "answer f rows =
     (case f of Healthy \<Rightarrow> Rows rows | ReturnsNull \<Rightarrow> NoData | ReturnsError e \<Rightarrow> Failed e
      | Rejects t \<Rightarrow> Throws t)"

datatype json =
    JNull
  | JBool bool
  | JNumber real
  | JString string
  | JArray "json list"
  | JObject "(string \<times> json) list"

record chat_session =
  session_pk :: string
  session_id :: string
  user_query :: string
  ai_response :: "string option"
  query_type :: "string option"
  execution_time_ms :: "int option"
  created_at :: nat

record data_embedding =
  content_type :: string
  content_id :: string
  content_text :: string
  embedding_created_at :: nat

text \<open>
  The world of one request: whether \<open>createClient\<close> throws; the answers of the three
  selects of \<open>retrieveRelevantData\<close> (by float id, the most recent profiles up to a limit,
  the measurements for a float id); the tables \<open>chat_sessions\<close> and \<open>data_embeddings\<close> with
  the faults of the calls on them; what the store makes of a session id that is not a
  string (\<open>None\<close>: it refuses the row); the key and the creation time that the store gives
  the next row; the clock readings of \<open>processQuery\<close> and the time stamp of the response.
\<close>

record world =
  createClient :: "thrown option"
  floats_eq :: "string \<Rightarrow> row reply"
  profiles_recent :: "nat \<Rightarrow> row reply"
  measurements_eq :: "string \<Rightarrow> row reply"
  chat_sessions :: "chat_session list"
  chat_select_fault :: fault
  chat_insert_fault :: fault
  data_embeddings :: "data_embedding list"
  embeddings_select_fault :: fault
  as_text :: "json \<Rightarrow> string option"
  next_pk :: string
  next_created_at :: nat
  startTime :: int
  endTime :: int
  now_iso :: string

text \<open>
  \<open>.order(column, { ascending })\<close> and \<open>.limit(n)\<close>. Rows with equal keys keep their table
  order when ascending and the reverse of it when descending; the store itself leaves that
  order open.
\<close>

definition order_asc :: "('a \<Rightarrow> nat) \<Rightarrow> 'a list \<Rightarrow> 'a list" where
  "order_asc key rows = sort_key key rows"

definition order_desc :: "('a \<Rightarrow> nat) \<Rightarrow> 'a list \<Rightarrow> 'a list" where
  "order_desc key rows = rev (sort_key key rows)"

section \<open>The embedding stub: \<open>VectorEmbeddingsGenerator.searchSimilarContent\<close>\<close>

text \<open>The limit is optional and 5 when it is left out.\<close>

definition searchSimilarContent :: "world \<Rightarrow> string \<Rightarrow> nat option \<Rightarrow> thrown + data_embedding list" where
  "searchSimilarContent W query limit =
     (case createClient W of
        Some e \<Rightarrow> Inl e
      | None \<Rightarrow>
          (case answer (embeddings_select_fault W)
                  (take (case limit of None \<Rightarrow> 5 | Some n \<Rightarrow> n)
                     (order_desc embedding_created_at (data_embeddings W))) of
             Rows data \<Rightarrow> Inr data
           | NoData \<Rightarrow> Inr []
           | Failed e \<Rightarrow> Inr []
           | Throws t \<Rightarrow> Inl t))"

section \<open>The chat processor\<close>

text \<open>
  \<open>retrieveRelevantData\<close> runs up to three selects and appends what each returns; a select
  that answers with an error or with no data adds nothing, one that throws ends the
  retrieval with what was collected before it.
\<close>

definition push_reply :: "row list \<Rightarrow> row reply \<Rightarrow> (row list \<Rightarrow> row list) \<Rightarrow> row list" where
  "push_reply data r continue =
     (case r of Rows rows \<Rightarrow> continue (data @ rows) | NoData \<Rightarrow> continue data
      | Failed e \<Rightarrow> continue data | Throws t \<Rightarrow> data)"

definition retrieveRelevantData :: "world \<Rightarrow> analysis \<Rightarrow> row list" where
  "retrieveRelevantData W analysis =
     (let fid = p_floatId (params analysis);
          step3 = (\<lambda>data. if ''depth_measurements'' \<in> set (dataNeeded analysis) \<and> truthy_str fid
                           then push_reply data (measurements_eq W (the fid)) (\<lambda>d. d) else data);
          step2 = (\<lambda>data. if ''ocean_profiles'' \<in> set (dataNeeded analysis)
                           then push_reply data
                                  (profiles_recent W (if truthy_str fid then 10 else 5)) step3
                           else step3 data)
      in if truthy_str fid then push_reply [] (floats_eq W (the fid)) step2 else step2 [])"

text \<open>
  \<open>storeChatSession\<close> inserts one row and swallows every failure. The table takes the row
  when the call is healthy, the session id is a text of at most 100 characters and no row
  has that session id yet (the column is \<open>VARCHAR(100) UNIQUE NOT NULL\<close>).
\<close>

definition session_text :: "world \<Rightarrow> json \<Rightarrow> string option" where
  "session_text W sessionId = (case sessionId of JString s \<Rightarrow> Some s | j \<Rightarrow> as_text W j)"

definition storeChatSession :: "world \<Rightarrow> json \<Rightarrow> string \<Rightarrow> string \<Rightarrow> string \<Rightarrow> int \<Rightarrow> world" where
  "storeChatSession W sessionId userQuery aiResponse queryType executionTime =
     (case (chat_insert_fault W, session_text W sessionId) of
        (Healthy, Some sid) \<Rightarrow>
          if length sid \<le> 100 \<and> sid \<notin> set (map session_id (chat_sessions W)) then
            W\<lparr> chat_sessions := chat_sessions W @
                  [\<lparr> session_pk = next_pk W, session_id = sid, user_query = userQuery,
                     ai_response = Some aiResponse, query_type = Some queryType,
                     execution_time_ms = Some executionTime,
                     created_at = next_created_at W \<rparr>] \<rparr>
          else W
      | _ \<Rightarrow> W)"

record QueryResult =
  response :: string
  queryType :: string
  executionTime :: int
  dataUsed :: "row list"
  result_visualizations :: "string list"

text \<open>
  \<open>processQuery\<close> receives what the route took from the body. A query that is not a string
  has no \<open>toLowerCase\<close>, so \<open>analyzeQuery\<close> throws a \<open>TypeError\<close>.
\<close>

definition processQuery :: "rendering \<Rightarrow> world \<Rightarrow> json \<Rightarrow> json \<Rightarrow> (thrown + QueryResult) \<times> world" where
  "processQuery R W query sessionId =
     (case createClient W of
        Some e \<Rightarrow> (Inl e, W)
      | None \<Rightarrow>
          (case query of
             JString q \<Rightarrow>
               (let queryAnalysis = analyzeQuery q;
                    relevantData = retrieveRelevantData W queryAnalysis;
                    resp = generateResponse R queryAnalysis relevantData;
                    elapsed = endTime W - startTime W;
                    W' = storeChatSession W sessionId q resp (type queryAnalysis) elapsed
                in (Inr \<lparr> response = resp, queryType = type queryAnalysis,
                          executionTime = elapsed, dataUsed = relevantData,
                          result_visualizations = visualizations queryAnalysis \<rparr>, W'))
           | _ \<Rightarrow> (Inl (Error (not_a_function R)), W)))"

datatype role = user | assistant

record ChatMessage =
  message_id :: string
  message_role :: role
  content :: "string option"
  timestamp :: nat
  message_queryType :: "string option"
  message_executionTime :: "int option"

definition messages_of :: "chat_session \<Rightarrow> ChatMessage list" where
  "messages_of session =
     [\<lparr> message_id = session_pk session @ ''-user'', message_role = user,
        content = Some (user_query session), timestamp = created_at session,
        message_queryType = query_type session,
        message_executionTime = execution_time_ms session \<rparr>,
      \<lparr> message_id = session_pk session @ ''-assistant'', message_role = assistant,
        content = ai_response session, timestamp = created_at session,
        message_queryType = query_type session,
        message_executionTime = execution_time_ms session \<rparr>]"

text \<open>
  \<open>getChatHistory\<close>: the client is made outside the \<open>try\<close>, so its failure reaches the
  caller; an error of the select or a throw inside the \<open>try\<close> gives the empty history.
\<close>

definition getChatHistory :: "world \<Rightarrow> string \<Rightarrow> thrown + ChatMessage list" where
  "getChatHistory W sessionId =
     (case createClient W of
        Some e \<Rightarrow> Inl e
      | None \<Rightarrow>
          (case answer (chat_select_fault W)
                  (order_asc created_at (filter (\<lambda>s. session_id s = sessionId) (chat_sessions W))) of
             Rows data \<Rightarrow> Inr (concat (map messages_of data))
           | NoData \<Rightarrow> Inr []
           | Failed e \<Rightarrow> Inr []
           | Throws t \<Rightarrow> Inr []))"

section \<open>The routes of \<open>/api/chat\<close>\<close>

record http_response =
  http_status :: nat
  http_body :: json

text \<open>A property of a parsed body; \<open>None\<close> is \<open>undefined\<close>. In an object the last entry of a key counts.\<close>

definition property :: "json \<Rightarrow> string \<Rightarrow> json option" where
  "property j k = (case j of JObject kvs \<Rightarrow> map_of (rev kvs) k | _ \<Rightarrow> None)"

definition truthy :: "json option \<Rightarrow> bool" where
  "truthy v =
     (case v of None \<Rightarrow> False | Some JNull \<Rightarrow> False | Some (JBool b) \<Rightarrow> b
      | Some (JNumber x) \<Rightarrow> x \<noteq> 0 | Some (JString s) \<Rightarrow> s \<noteq> [] | Some _ \<Rightarrow> True)"

definition details :: "thrown \<Rightarrow> string" where
  "details e = (case e of Error message \<Rightarrow> message | NonError \<Rightarrow> ''Unknown error'')"

definition chat_failure :: "thrown \<Rightarrow> http_response" where
  "chat_failure e =
     \<lparr> http_status = 500,
       http_body = JObject [(''error'', JString ''Failed to process chat query''),
                            (''details'', JString (details e))] \<rparr>"

text \<open>
  \<open>POST\<close>: the argument is what \<open>request.json()\<close> gives, a parsed body or a throw. A body
  that is \<open>null\<close> cannot be destructured.
\<close>

definition POST :: "rendering \<Rightarrow> world \<Rightarrow> thrown + json \<Rightarrow> http_response \<times> world" where
  "POST R W request =
     (case request of
        Inl e \<Rightarrow> (chat_failure e, W)
      | Inr JNull \<Rightarrow> (chat_failure (Error (cannot_destructure R)), W)
      | Inr body \<Rightarrow>
          (let query = property body ''query''; sessionId = property body ''sessionId'' in
           if \<not> truthy query \<or> \<not> truthy sessionId then
             (\<lparr> http_status = 400,
                http_body = JObject [(''error'', JString ''Query and session ID are required'')] \<rparr>, W)
           else
             (case processQuery R W (the query) (the sessionId) of
                (Inl e, W') \<Rightarrow> (chat_failure e, W')
              | (Inr result, W') \<Rightarrow>
                  (\<lparr> http_status = 200,
                     http_body = JObject
                       [(''success'', JBool True),
                        (''response'', JString (response result)),
                        (''queryType'', JString (queryType result)),
                        (''executionTime'', JNumber (of_int (executionTime result))),
                        (''dataUsed'', JNumber (of_nat (length (dataUsed result)))),
                        (''visualizations'', JArray (map JString (result_visualizations result))),
                        (''timestamp'', JString (now_iso W))] \<rparr>, W'))))"

definition json_opt :: "('a \<Rightarrow> json) \<Rightarrow> 'a option \<Rightarrow> json" where
  "json_opt f v = (case v of None \<Rightarrow> JNull | Some x \<Rightarrow> f x)"

definition message_json :: "rendering \<Rightarrow> ChatMessage \<Rightarrow> json" where
  "message_json R m =
     JObject [(''id'', JString (message_id m)),
              (''role'', JString (case message_role m of user \<Rightarrow> ''user'' | assistant \<Rightarrow> ''assistant'')),
              (''content'', json_opt JString (content m)),
              (''timestamp'', JString (toISOString R (timestamp m))),
              (''queryType'', json_opt JString (message_queryType m)),
              (''executionTime'', json_opt (\<lambda>t. JNumber (of_int t)) (message_executionTime m))]"

text \<open>\<open>GET\<close>: the argument is the search parameter \<open>sessionId\<close>, \<open>None\<close> when it is absent.\<close>

definition GET :: "rendering \<Rightarrow> world \<Rightarrow> string option \<Rightarrow> http_response" where
  "GET R W sessionId =
     (if \<not> truthy_str sessionId then
        \<lparr> http_status = 400,
          http_body = JObject [(''error'', JString ''Session ID parameter is required'')] \<rparr>
      else
        (case getChatHistory W (the sessionId) of
           Inl e \<Rightarrow>
             \<lparr> http_status = 500,
               http_body = JObject [(''error'', JString ''Failed to fetch chat history'')] \<rparr>
         | Inr history \<Rightarrow>
             \<lparr> http_status = 200,
               http_body = JObject
                 [(''success'', JBool True),
                  (''messages'', JArray (map (message_json R) history)),
                  (''count'', JNumber (of_nat (length history)))] \<rparr>))"

section \<open>Forms of texts\<close>

text \<open>
  The form \<open>R<digits>_<digits>.nc\<close> read as the shape of the whole file name: the letter R,
  a run of one or more digits, an underscore, a second run of one or more digits, and
  \<open>.nc\<close> at the end.
\<close>

definition digits1 :: "string \<Rightarrow> bool" where
  "digits1 g = (g \<noteq> [] \<and> list_all is_digit g)"

definition filename_form :: "string \<Rightarrow> bool" where
  "filename_form f =
     (case f of
        [] \<Rightarrow> False
      | x # rest \<Rightarrow>
          x = CHR ''R'' \<and> digits1 (takeWhile is_digit rest)
          \<and> (case dropWhile is_digit rest of
                [] \<Rightarrow> False
              | y # rest' \<Rightarrow>
                  y = CHR ''_'' \<and> digits1 (takeWhile is_digit rest')
                  \<and> dropWhile is_digit rest' = ''.nc''))"

text \<open>A text that starts with a digit, and one that ends with a digit.\<close>

definition starts_with_digit :: "string \<Rightarrow> bool" where
  "starts_with_digit s = (case s of [] \<Rightarrow> False | x # xs \<Rightarrow> is_digit x)"

definition ends_with_digit :: "string \<Rightarrow> bool" where
  "ends_with_digit s = starts_with_digit (rev s)"

text \<open>The rows of a session that the table holds.\<close>

definition stored_rows :: "world \<Rightarrow> string \<Rightarrow> chat_session list" where
  "stored_rows W sessionId = filter (\<lambda>s. session_id s = sessionId) (chat_sessions W)"

section \<open>An example world\<close>

text \<open>
  A store with three embedding rows and the chat rows of two sessions, every call healthy,
  and a runtime whose renderings are fixed texts.
\<close>

definition example_embeddings :: "data_embedding list" where
  "example_embeddings =
     [\<lparr> content_type = ''profile'', content_id = ''p1'', content_text = ''first'',
        embedding_created_at = 10 \<rparr>,
      \<lparr> content_type = ''measurement'', content_id = ''p1'', content_text = ''third'',
        embedding_created_at = 30 \<rparr>,
      \<lparr> content_type = ''measurement'', content_id = ''p1'', content_text = ''second'',
        embedding_created_at = 20 \<rparr>]"

definition example_sessions :: "chat_session list" where
  "example_sessions =
     [\<lparr> session_pk = ''k1'', session_id = ''home-1'', user_query = ''salinity?'',
        ai_response = Some ''no salinity data'', query_type = Some ''salinity_query'',
        execution_time_ms = Some 12, created_at = 40 \<rparr>,
      \<lparr> session_pk = ''k2'', session_id = ''dashboard-2'', user_query = ''hello'',
        ai_response = Some ''no data'', query_type = Some ''general_query'',
        execution_time_ms = Some 7, created_at = 45 \<rparr>]"

definition example_world :: world where
  "example_world =
     \<lparr> createClient = None,
       floats_eq = (\<lambda>fid. Rows []),
       profiles_recent = (\<lambda>n. Rows []),
       measurements_eq = (\<lambda>fid. Rows []),
       chat_sessions = example_sessions,
       chat_select_fault = Healthy,
       chat_insert_fault = Healthy,
       data_embeddings = example_embeddings,
       embeddings_select_fault = Healthy,
       as_text = (\<lambda>j. None),
       next_pk = ''k3'',
       next_created_at = 50,
       startTime = 1000,
       endTime = 1012,
       now_iso = ''2024-12-20T10:30:00.000Z'' \<rparr>"

text \<open>
  The same world when the select on \<open>chat_sessions\<close> answers with an error, and a world
  whose table holds two rows of the session "home-1", not in the order of their creation,
  and between them a row of another session. \<open>getChatHistory\<close> reads whatever rows the
  select returns; a table made with the \<open>UNIQUE\<close> column of the schema never holds two rows
  of one session (see \<open>storeChatSession\<close>), so that this table is one without it.
\<close>

definition failing_world :: world where
  "failing_world = example_world\<lparr> chat_select_fault := ReturnsError ''boom'' \<rparr>"

definition history_sessions :: "chat_session list" where
  "history_sessions =
     [\<lparr> session_pk = ''k5'', session_id = ''home-1'', user_query = ''second question'',
        ai_response = Some ''second answer'', query_type = Some ''general_query'',
        execution_time_ms = Some 9, created_at = 60 \<rparr>,
      \<lparr> session_pk = ''k2'', session_id = ''dashboard-2'', user_query = ''hello'',
        ai_response = Some ''no data'', query_type = Some ''general_query'',
        execution_time_ms = Some 7, created_at = 45 \<rparr>,
      \<lparr> session_pk = ''k1'', session_id = ''home-1'', user_query = ''first question'',
        ai_response = Some ''first answer'', query_type = Some ''salinity_query'',
        execution_time_ms = Some 12, created_at = 40 \<rparr>]"

definition history_world :: world where
  "history_world = example_world\<lparr> chat_sessions := history_sessions \<rparr>"

definition example_rendering :: rendering where
  "example_rendering =
     \<lparr> toFixed = (\<lambda>d x. ''0.0''),
       numberToString = (\<lambda>x. ''0''),
       toLocaleDateString = (\<lambda>t. ''12/20/2024''),
       toISOString = (\<lambda>t. ''2024-12-20T10:30:00.000Z''),
       cannot_destructure = ''Cannot destructure property of null'',
       not_a_function = ''query.toLowerCase is not a function'' \<rparr>"

section \<open>Evaluation\<close>

lemmas regex_defs = lit_def lit_i_def lits_def lits_i_def digit_def Plus_def Opt_def
  is_digit_def space_def space_length_def white_space_def lower_char_def upper_letters_def lower_letters_def exec_at_def

lemmas number_defs = parseInt_def decimal_def digit_value_def MAX_SAFE_INTEGER_def

lemmas extract_defs = extractParameters_def re_float_def re_digits7_def re_depth_def
  re_date_def dash_or_slash_def

section \<open>The region lookup\<close>

text \<open>
  Claim C1, as amended. The two copies of \<open>getOceanRegion\<close> agree on every position. Latitude
  15, longitude 68 is in the Arabian Sea. Latitude -20, longitude 60 is in the box of the
  second rule (latitude from -30 to 30, longitude from 20 to 120) and gives "Indian Ocean".
  The default "Indian Ocean region" is what every position outside that box gives, such as
  latitude -40, longitude 60, and no position inside it.
\<close>

theorem getOceanRegion_examples:
  "VectorEmbeddingsGenerator_getOceanRegion lat lon = getOceanRegion lat lon
   \<and> getOceanRegion 15 68 = ''Arabian Sea''
   \<and> getOceanRegion (-20) 60 = ''Indian Ocean''
   \<and> (\<not> (-30 \<le> lat \<and> lat \<le> 30 \<and> 20 \<le> lon \<and> lon \<le> 120) \<longrightarrow>
        getOceanRegion lat lon = ''Indian Ocean region'')
   \<and> (-30 \<le> lat \<and> lat \<le> 30 \<and> 20 \<le> lon \<and> lon \<le> 120 \<longrightarrow>
        getOceanRegion lat lon \<noteq> ''Indian Ocean region'')
   \<and> getOceanRegion (-40) 60 = ''Indian Ocean region''"
proof (intro conjI impI)
  show "VectorEmbeddingsGenerator_getOceanRegion lat lon = getOceanRegion lat lon"
    by (simp add: getOceanRegion_def VectorEmbeddingsGenerator_getOceanRegion_def)
  show "getOceanRegion 15 68 = ''Arabian Sea''" by (simp add: getOceanRegion_def)
  show "getOceanRegion (-20) 60 = ''Indian Ocean''" by (simp add: getOceanRegion_def)
  show "getOceanRegion (-40) 60 = ''Indian Ocean region''" by (simp add: getOceanRegion_def)
next
  assume out: "\<not> (-30 \<le> lat \<and> lat \<le> 30 \<and> 20 \<le> lon \<and> lon \<le> 120)"
  then have "\<not> (lat \<ge> 0 \<and> lat \<le> 30 \<and> lon \<ge> 40 \<and> lon \<le> 100)"
    and "\<not> (lat \<ge> -10 \<and> lat \<le> 30 \<and> lon \<ge> 90 \<and> lon \<le> 120)"
    by linarith+
  with out show "getOceanRegion lat lon = ''Indian Ocean region''"
    unfolding getOceanRegion_def by (simp only: if_False)
next
  assume "-30 \<le> lat \<and> lat \<le> 30 \<and> 20 \<le> lon \<and> lon \<le> 120"
  then show "getOceanRegion lat lon \<noteq> ''Indian Ocean region''"
    by (simp add: getOceanRegion_def)
qed

text \<open>
  Claim C1, as amended, at a position outside the box and at one inside it.
\<close>

theorem getOceanRegion_examples_witness:
  "\<not> (-30 \<le> (-40::real) \<and> (-40::real) \<le> 30 \<and> (20::real) \<le> 60 \<and> (60::real) \<le> 120)
   \<and> getOceanRegion (-40) 60 = ''Indian Ocean region''
   \<and> (-30 \<le> (-20::real) \<and> (-20::real) \<le> 30 \<and> (20::real) \<le> 60 \<and> (60::real) \<le> 120)
   \<and> getOceanRegion (-20) 60 \<noteq> ''Indian Ocean region''"
proof -
  have a: "\<not> (-30 \<le> (-40::real) \<and> (-40::real) \<le> 30 \<and> (20::real) \<le> 60 \<and> (60::real) \<le> 120)"
    by simp
  have b: "-30 \<le> (-20::real) \<and> (-20::real) \<le> 30 \<and> (20::real) \<le> 60 \<and> (60::real) \<le> 120"
    by simp
  from getOceanRegion_examples [of "-40" 60] a
  have c: "getOceanRegion (-40) 60 = ''Indian Ocean region''" by blast
  from getOceanRegion_examples [of "-20" 60] b
  have d: "getOceanRegion (-20) 60 \<noteq> ''Indian Ocean region''" by blast
  from a b c d show ?thesis by blast
qed

text \<open>
  Claim C1 as stated fails: at latitude -20, longitude 60 the lookup does not return the
  default string.
\<close>

theorem getOceanRegion_fallback_counterexample:
  "\<not> (getOceanRegion 15 68 = ''Arabian Sea''
      \<and> getOceanRegion (-20) 60 = ''Indian Ocean region'')"
  by (simp add: getOceanRegion_def)

section \<open>The classifier\<close>

text \<open>The label of a query: the first rule that matches decides.\<close>

lemma analyzeQuery_type:
  "type (analyzeQuery query) =
     (let lowerQuery = toLowerCase query in
      if includes_str lowerQuery ''temperature'' \<or> includes_str lowerQuery ''temp''
        then ''temperature_query''
      else if includes_str lowerQuery ''salinity'' \<or> includes_str lowerQuery ''salt''
        then ''salinity_query''
      else if includes_str lowerQuery ''oxygen'' \<or> includes_str lowerQuery ''nitrate''
              \<or> includes_str lowerQuery ''ph'' \<or> includes_str lowerQuery ''chlorophyll''
        then ''bgc_query''
      else if includes_str lowerQuery ''float''
              \<and> (includes_str lowerQuery ''location'' \<or> includes_str lowerQuery ''position'')
        then ''float_location_query''
      else if includes_str lowerQuery ''compare'' \<or> includes_str lowerQuery ''difference''
              \<or> includes_str lowerQuery ''vs''
        then ''comparison_query''
      else ''general_query'')"
  unfolding analyzeQuery_def Let_def by (simp only: if_distrib [of type] analysis.simps)

text \<open>\<open>includes_str\<close> is the contiguous occurrence.\<close>

lemma startsWith_iff: "startsWith s t \<longleftrightarrow> (\<exists>post. s = t @ post)"
  by (induction s t rule: startsWith.induct) auto

lemma includes_str_iff: "includes_str s t \<longleftrightarrow> (\<exists>pre post. s = pre @ t @ post)"
proof (induction s)
  case Nil
  then show ?case by simp
next
  case (Cons x xs)
  show ?case
  proof
    assume "includes_str (x # xs) t"
    then consider "startsWith (x # xs) t" | "includes_str xs t" by auto
    then show "\<exists>pre post. x # xs = pre @ t @ post"
    proof cases
      case 1
      then obtain post where "x # xs = t @ post" using startsWith_iff by blast
      then have "x # xs = [] @ t @ post" by simp
      then show ?thesis by blast
    next
      case 2
      then obtain pre post where "xs = pre @ t @ post" using Cons.IH by blast
      then have "x # xs = (x # pre) @ t @ post" by simp
      then show ?thesis by blast
    qed
  next
    assume "\<exists>pre post. x # xs = pre @ t @ post"
    then obtain pre post where e: "x # xs = pre @ t @ post" by blast
    show "includes_str (x # xs) t"
    proof (cases pre)
      case Nil
      with e have "startsWith (x # xs) t" using startsWith_iff by auto
      then show ?thesis by simp
    next
      case (Cons y ys)
      with e have "xs = ys @ t @ post" by simp
      then have "includes_str xs t" using Cons.IH by blast
      then show ?thesis by simp
    qed
  qed
qed

text \<open>
  Claim C3. A query whose lower-cased text contains "temperature" is a temperature query,
  whatever other keywords it contains: the temperature rule is the first of the chain
  temperature, salinity, BGC terms, float location, comparison, general.
\<close>

theorem analyzeQuery_temperature_first:
  "includes_str (toLowerCase query) ''temperature''
   \<Longrightarrow> type (analyzeQuery query) = ''temperature_query''"
  by (simp add: analyzeQuery_type Let_def)

text \<open>Claim C3 at a query that also holds "compare", "salinity" and "vs".\<close>

theorem analyzeQuery_temperature_first_witness:
  "includes_str (toLowerCase ''Compare salinity vs Temperature between floats'') ''temperature''
   \<and> type (analyzeQuery ''Compare salinity vs Temperature between floats'') = ''temperature_query''"
proof -
  have h: "includes_str (toLowerCase ''Compare salinity vs Temperature between floats'') ''temperature''"
    by code_simp
  from h analyzeQuery_temperature_first [OF h] show ?thesis by simp
qed

text \<open>
  Claim C10. A query whose lower-cased text contains none of "temperature", "temp",
  "salinity", "salt" and contains the two letters "ph" anywhere is a BGC query.
\<close>

theorem analyzeQuery_ph_substring:
  "\<not> includes_str (toLowerCase query) ''temperature''
   \<Longrightarrow> \<not> includes_str (toLowerCase query) ''temp''
   \<Longrightarrow> \<not> includes_str (toLowerCase query) ''salinity''
   \<Longrightarrow> \<not> includes_str (toLowerCase query) ''salt''
   \<Longrightarrow> includes_str (toLowerCase query) ''ph''
   \<Longrightarrow> type (analyzeQuery query) = ''bgc_query''"
  by (simp add: analyzeQuery_type Let_def)

text \<open>Claim C10 at "graph" and at "Photo", words that have nothing to do with pH.\<close>

theorem analyzeQuery_ph_substring_witness:
  "\<not> includes_str (toLowerCase ''Show me a graph'') ''temperature''
   \<and> \<not> includes_str (toLowerCase ''Show me a graph'') ''temp''
   \<and> \<not> includes_str (toLowerCase ''Show me a graph'') ''salinity''
   \<and> \<not> includes_str (toLowerCase ''Show me a graph'') ''salt''
   \<and> includes_str (toLowerCase ''Show me a graph'') ''ph''
   \<and> type (analyzeQuery ''Show me a graph'') = ''bgc_query''
   \<and> type (analyzeQuery ''Photo of the buoy'') = ''bgc_query''"
proof -
  have a: "\<not> includes_str (toLowerCase ''Show me a graph'') ''temperature''" by code_simp
  have b: "\<not> includes_str (toLowerCase ''Show me a graph'') ''temp''" by code_simp
  have c: "\<not> includes_str (toLowerCase ''Show me a graph'') ''salinity''" by code_simp
  have d: "\<not> includes_str (toLowerCase ''Show me a graph'') ''salt''" by code_simp
  have e: "includes_str (toLowerCase ''Show me a graph'') ''ph''" by code_simp
  have a': "\<not> includes_str (toLowerCase ''Photo of the buoy'') ''temperature''" by code_simp
  have b': "\<not> includes_str (toLowerCase ''Photo of the buoy'') ''temp''" by code_simp
  have c': "\<not> includes_str (toLowerCase ''Photo of the buoy'') ''salinity''" by code_simp
  have d': "\<not> includes_str (toLowerCase ''Photo of the buoy'') ''salt''" by code_simp
  have e': "includes_str (toLowerCase ''Photo of the buoy'') ''ph''" by code_simp
  from a b c d e analyzeQuery_ph_substring [OF a b c d e]
    analyzeQuery_ph_substring [OF a' b' c' d' e']
  show ?thesis by simp
qed

section \<open>Parameter extraction\<close>

text \<open>Claim C7. The query "at 500m depth" gives the depth 500.\<close>

theorem extractParameters_depth:
  "p_depth (extractParameters ''at 500m depth'') = Some (Exact 500)"
  by (simp add: extract_defs regex_defs number_defs)

section \<open>The response generator without data\<close>

text \<open>
  The query "compare floats": a comparison query that names no float, for which nothing is
  retrieved.
\<close>

lemma comparison_label: "type (analyzeQuery ''compare floats'') = ''comparison_query''"
  by code_simp

lemma comparison_no_float: "p_floatId (params (analyzeQuery ''compare floats'')) = None"
  by code_simp

lemma comparison_needs:
  "dataNeeded (analyzeQuery ''compare floats'') = [''depth_measurements'', ''bgc_measurements'']"
  by code_simp

text \<open>
  Claim C2, at the comparison category. For the query "compare floats" the classifier gives
  \<open>comparison_query\<close> and the retrieval gives the empty list, whatever the store holds.
  \<open>generateResponse\<close> then returns the comparison text, which speaks of what "the data
  reveals"; it is the same text for every list of rows, so the category has no message for
  the case without data.
\<close>

theorem generateResponse_comparison_no_data:
  "type (analyzeQuery ''compare floats'') = ''comparison_query''
   \<and> retrieveRelevantData W (analyzeQuery ''compare floats'') = []
   \<and> generateResponse R (analyzeQuery ''compare floats'') [] =
       ''Comparison analysis shows variations in oceanographic parameters across different locations and time periods. The data reveals spatial and temporal patterns that are important for understanding ocean dynamics and climate variability in the Indian Ocean region.''
   \<and> generateResponse R (analyzeQuery ''compare floats'') [] =
       generateResponse R (analyzeQuery ''compare floats'') data"
  by (simp add: comparison_label comparison_no_float comparison_needs retrieveRelevantData_def
        truthy_str_def generateResponse_def generateComparisonResponse_def)

text \<open>
  The other five categories test for the empty list first and have a message of their own
  for it.
\<close>

lemma generateResponse_no_data_messages:
  "type a = ''temperature_query'' \<Longrightarrow> generateResponse R a [] =
     ''I don't have temperature data available for your query. Please try asking about a specific ARGO float ID or check if the data has been processed.''"
  "type a = ''salinity_query'' \<Longrightarrow> generateResponse R a [] =
     ''I don't have salinity data available for your query. Please specify an ARGO float ID or check if the data has been processed.''"
  "type a = ''bgc_query'' \<Longrightarrow> generateResponse R a [] =
     ''I don't have biogeochemical data available for your query. BGC data is available from select ARGO floats with biogeochemical sensors.''"
  "type a = ''float_location_query'' \<Longrightarrow> generateResponse R a [] =
     ''I don't have location data for the requested float. Please check the float ID or try a different query.''"
  "type a = ''general_query'' \<Longrightarrow> generateResponse R a [] =
     ''I don't have specific data to answer your query. Try asking about:'' @ nl @ nl
        @ bullet @ '' Temperature profiles for a specific float'' @ nl
        @ bullet @ '' Salinity data in the Arabian Sea'' @ nl
        @ bullet @ '' Oxygen levels at different depths'' @ nl
        @ bullet @ '' Float locations and trajectories'' @ nl @ nl
        @ ''You can reference specific ARGO float IDs (like 5906468) for detailed information.''"
  by (simp_all add: generateResponse_def generateTemperatureResponse_def
        generateSalinityResponse_def generateBGCResponse_def generateLocationResponse_def
        generateGeneralResponse_def)

section \<open>The similarity search\<close>

text \<open>
  The ordered selects return the rows of the table, each once, in the order asked for.
\<close>

lemma order_desc_props:
  "mset (order_desc key rows) = mset rows"
  "sorted (rev (map key (order_desc key rows)))"
  by (simp_all add: order_desc_def rev_map [symmetric])

lemma order_asc_props:
  "mset (order_asc key rows) = mset rows"
  "sorted (map key (order_asc key rows))"
  by (simp_all add: order_asc_def)

text \<open>
  Claim C5. \<open>searchSimilarContent\<close> returns the same result for any two queries, the
  limit and the store being the same. When the client is there and the select is healthy,
  the result is the start, up to the limit (5 when none is given), of the embedding rows
  in descending order of creation time.
\<close>

theorem searchSimilarContent_ignores_query:
  "searchSimilarContent W query1 limit = searchSimilarContent W query2 limit
   \<and> (createClient W = None \<longrightarrow> embeddings_select_fault W = Healthy \<longrightarrow>
        (\<exists>recent. mset recent = mset (data_embeddings W)
           \<and> sorted (rev (map embedding_created_at recent))
           \<and> searchSimilarContent W query1 limit =
               Inr (take (case limit of None \<Rightarrow> 5 | Some n \<Rightarrow> n) recent)))"
proof -
  have same: "searchSimilarContent W query1 limit = searchSimilarContent W query2 limit"
    by (simp add: searchSimilarContent_def)
  have recent: "\<exists>recent. mset recent = mset (data_embeddings W)
           \<and> sorted (rev (map embedding_created_at recent))
           \<and> searchSimilarContent W query1 limit =
               Inr (take (case limit of None \<Rightarrow> 5 | Some n \<Rightarrow> n) recent)"
    if "createClient W = None" "embeddings_select_fault W = Healthy"
  proof (intro exI conjI)
    show "mset (order_desc embedding_created_at (data_embeddings W)) = mset (data_embeddings W)"
      by (rule order_desc_props)
    show "sorted (rev (map embedding_created_at (order_desc embedding_created_at (data_embeddings W))))"
      by (rule order_desc_props)
    show "searchSimilarContent W query1 limit =
            Inr (take (case limit of None \<Rightarrow> 5 | Some n \<Rightarrow> n)
                   (order_desc embedding_created_at (data_embeddings W)))"
      using that by (simp add: searchSimilarContent_def answer_def)
  qed
  from same recent show ?thesis by blast
qed

text \<open>
  The example store in descending order of creation time.
\<close>

lemma example_recent:
  "order_desc embedding_created_at example_embeddings =
     [example_embeddings ! 1, example_embeddings ! 2, example_embeddings ! 0]"
  by (simp add: order_desc_def example_embeddings_def)

text \<open>
  Claim C5 in the example world: two different queries, the limit 2 and the default limit.
\<close>

theorem searchSimilarContent_ignores_query_witness:
  "createClient example_world = None \<and> embeddings_select_fault example_world = Healthy
   \<and> searchSimilarContent example_world ''oxygen minimum'' (Some 2) =
       searchSimilarContent example_world ''warm water'' (Some 2)
   \<and> searchSimilarContent example_world ''oxygen minimum'' (Some 2) =
       Inr [example_embeddings ! 1, example_embeddings ! 2]
   \<and> searchSimilarContent example_world ''oxygen minimum'' None =
       Inr [example_embeddings ! 1, example_embeddings ! 2, example_embeddings ! 0]"
proof -
  have a: "createClient example_world = None" by (simp add: example_world_def)
  have b: "embeddings_select_fault example_world = Healthy" by (simp add: example_world_def)
  have c: "data_embeddings example_world = example_embeddings" by (simp add: example_world_def)
  have d: "searchSimilarContent example_world q l =
             Inr (take (case l of None \<Rightarrow> 5 | Some n \<Rightarrow> n)
                    (order_desc embedding_created_at example_embeddings))" for q l
    by (simp add: searchSimilarContent_def answer_def a b c)
  from searchSimilarContent_ignores_query [of example_world "''oxygen minimum''" "Some 2" "''warm water''"]
  have e: "searchSimilarContent example_world ''oxygen minimum'' (Some 2) =
       searchSimilarContent example_world ''warm water'' (Some 2)" by blast
  show ?thesis using a b e by (simp add: d example_recent)
qed

section \<open>The chat history\<close>

lemma length_messages: "length (concat (map messages_of rows)) = 2 * length rows"
  by (induction rows) (simp_all add: messages_of_def)

lemma getChatHistory_cases:
  "getChatHistory W sessionId =
     (case createClient W of
        Some e \<Rightarrow> Inl e
      | None \<Rightarrow>
          if chat_select_fault W = Healthy
          then Inr (concat (map messages_of (order_asc created_at (stored_rows W sessionId))))
          else Inr [])"
  by (cases "chat_select_fault W")
     (simp_all add: getChatHistory_def answer_def stored_rows_def split: option.splits)

text \<open>
  Claim C9, as amended. When the client is there and the select answers with rows, the
  history of a session is made of the session's stored rows in ascending order of creation
  time, two messages for each row: first the user's message with the stored query, then
  the assistant's message with the stored response, both with the row's creation time and
  query type. The history then has twice as many messages as the session has rows, and
  that number is the \<open>count\<close> of \<open>GET\<close>. When the select answers with an error or with
  no data, or throws, the history is empty and \<open>GET\<close> answers 200 with the count 0,
  whatever rows are stored. When the client cannot be made, \<open>GET\<close> answers 500.
\<close>

theorem getChatHistory_two_messages_per_row:
  "(createClient W = None \<longrightarrow> chat_select_fault W = Healthy \<longrightarrow>
      mset (order_asc created_at (stored_rows W sessionId)) = mset (stored_rows W sessionId)
      \<and> sorted (map created_at (order_asc created_at (stored_rows W sessionId)))
      \<and> getChatHistory W sessionId =
          Inr (concat (map messages_of (order_asc created_at (stored_rows W sessionId))))
      \<and> length (concat (map messages_of (order_asc created_at (stored_rows W sessionId)))) =
          2 * length (stored_rows W sessionId)
      \<and> (sessionId \<noteq> [] \<longrightarrow>
           GET R W (Some sessionId) =
             \<lparr> http_status = 200,
               http_body = JObject
                 [(''success'', JBool True),
                  (''messages'', JArray (map (message_json R)
                     (concat (map messages_of (order_asc created_at (stored_rows W sessionId)))))),
                  (''count'', JNumber (of_nat (2 * length (stored_rows W sessionId))))] \<rparr>))
   \<and> map message_role (messages_of s) = [user, assistant]
   \<and> map content (messages_of s) = [Some (user_query s), ai_response s]
   \<and> map timestamp (messages_of s) = [created_at s, created_at s]
   \<and> map message_queryType (messages_of s) = [query_type s, query_type s]
   \<and> (createClient W = None \<longrightarrow> chat_select_fault W \<noteq> Healthy \<longrightarrow>
        getChatHistory W sessionId = Inr []
        \<and> (sessionId \<noteq> [] \<longrightarrow>
             GET R W (Some sessionId) =
               \<lparr> http_status = 200,
                 http_body = JObject
                   [(''success'', JBool True), (''messages'', JArray []),
                    (''count'', JNumber 0)] \<rparr>))
   \<and> (createClient W = Some e \<longrightarrow>
        getChatHistory W sessionId = Inl e
        \<and> (sessionId \<noteq> [] \<longrightarrow>
             GET R W (Some sessionId) =
               \<lparr> http_status = 500,
                 http_body = JObject [(''error'', JString ''Failed to fetch chat history'')] \<rparr>))"
proof (intro conjI impI)
  let ?stored = "stored_rows W sessionId"
  let ?rows = "order_asc created_at ?stored"
  show "mset ?rows = mset ?stored" by (rule order_asc_props)
  show "sorted (map created_at ?rows)" by (rule order_asc_props)
  have "length ?rows = length ?stored" by (simp add: order_asc_def)
  then show l: "length (concat (map messages_of ?rows)) = 2 * length ?stored"
    by (simp add: length_messages)
  show "map message_role (messages_of s) = [user, assistant]" by (simp add: messages_of_def)
  show "map content (messages_of s) = [Some (user_query s), ai_response s]"
    by (simp add: messages_of_def)
  show "map timestamp (messages_of s) = [created_at s, created_at s]"
    by (simp add: messages_of_def)
  show "map message_queryType (messages_of s) = [query_type s, query_type s]"
    by (simp add: messages_of_def)
  {
    assume a: "createClient W = None" "chat_select_fault W = Healthy"
    then show h: "getChatHistory W sessionId = Inr (concat (map messages_of ?rows))"
      by (simp add: getChatHistory_cases)
    assume "sessionId \<noteq> []"
    with h l show "GET R W (Some sessionId) =
             \<lparr> http_status = 200,
               http_body = JObject
                 [(''success'', JBool True),
                  (''messages'', JArray (map (message_json R) (concat (map messages_of ?rows)))),
                  (''count'', JNumber (of_nat (2 * length ?stored)))] \<rparr>"
      by (simp add: GET_def truthy_str_def)
  }
  {
    assume a: "createClient W = None" "chat_select_fault W \<noteq> Healthy"
    then show h: "getChatHistory W sessionId = Inr []"
      by (simp add: getChatHistory_cases)
    assume "sessionId \<noteq> []"
    with h show "GET R W (Some sessionId) =
               \<lparr> http_status = 200,
                 http_body = JObject
                   [(''success'', JBool True), (''messages'', JArray []),
                    (''count'', JNumber 0)] \<rparr>"
      by (simp add: GET_def truthy_str_def)
  }
  {
    assume a: "createClient W = Some e"
    then show h: "getChatHistory W sessionId = Inl e"
      by (simp add: getChatHistory_cases)
    assume "sessionId \<noteq> []"
    with h show "GET R W (Some sessionId) =
               \<lparr> http_status = 500,
                 http_body = JObject [(''error'', JString ''Failed to fetch chat history'')] \<rparr>"
      by (simp add: GET_def truthy_str_def)
  }
qed

text \<open>
  Claim C9 as stated fails: in the example world with a select that answers with an error,
  the session "home-1" has one stored row, and \<open>GET\<close> answers 200 with no messages and
  the count 0.
\<close>

theorem getChatHistory_select_error_counterexample:
  "length (stored_rows failing_world ''home-1'') = 1
   \<and> getChatHistory failing_world ''home-1'' = Inr []
   \<and> GET example_rendering failing_world (Some ''home-1'') =
       \<lparr> http_status = 200,
         http_body = JObject
           [(''success'', JBool True), (''messages'', JArray []), (''count'', JNumber 0)] \<rparr>"
  by (simp add: GET_def truthy_str_def getChatHistory_def answer_def stored_rows_def
        failing_world_def example_world_def example_sessions_def)

text \<open>
  Claim C9, as amended, in three worlds: a table with two rows of the session "home-1"
  that are not in the order of their creation, between them a row of another session,
  where the history has the four messages in the order of creation and the count is 4; the
  select that answers with an error, where one row is stored and the count is 0; and a
  client that cannot be made, where \<open>GET\<close> answers 500.
\<close>

theorem getChatHistory_two_messages_per_row_witness:
  "createClient history_world = None \<and> chat_select_fault history_world = Healthy
   \<and> length (stored_rows history_world ''home-1'') = 2
   \<and> (\<exists>ms. getChatHistory history_world ''home-1'' = Inr ms \<and> length ms = 4
          \<and> map message_role ms = [user, assistant, user, assistant]
          \<and> map content ms = [Some ''first question'', Some ''first answer'',
                               Some ''second question'', Some ''second answer'']
          \<and> map timestamp ms = [40, 40, 60, 60]
          \<and> GET example_rendering history_world (Some ''home-1'') =
               \<lparr> http_status = 200,
                 http_body = JObject
                   [(''success'', JBool True),
                    (''messages'', JArray (map (message_json example_rendering) ms)),
                    (''count'', JNumber 4)] \<rparr>)
   \<and> chat_select_fault failing_world \<noteq> Healthy
   \<and> length (stored_rows failing_world ''home-1'') = 1
   \<and> getChatHistory failing_world ''home-1'' = Inr []
   \<and> GET example_rendering failing_world (Some ''home-1'') =
       \<lparr> http_status = 200,
         http_body = JObject
           [(''success'', JBool True), (''messages'', JArray []), (''count'', JNumber 0)] \<rparr>
   \<and> getChatHistory (example_world\<lparr>createClient := Some (Error ''no client'')\<rparr>) ''home-1'' =
       Inl (Error ''no client'')
   \<and> GET example_rendering (example_world\<lparr>createClient := Some (Error ''no client'')\<rparr>)
         (Some ''home-1'') =
       \<lparr> http_status = 500,
         http_body = JObject [(''error'', JString ''Failed to fetch chat history'')] \<rparr>"
proof -
  let ?W = "example_world\<lparr>createClient := Some (Error ''no client'')\<rparr>"
  let ?R = example_rendering
  let ?ms = "messages_of (history_sessions ! 2) @ messages_of (history_sessions ! 0)"
  have n: "''home-1'' \<noteq> []" by simp
  have a: "createClient history_world = None" "chat_select_fault history_world = Healthy"
    by (simp_all add: history_world_def example_world_def)
  have s: "stored_rows history_world ''home-1'' = [history_sessions ! 0, history_sessions ! 2]"
    by (simp add: stored_rows_def history_world_def example_world_def history_sessions_def)
  have o: "order_asc created_at [history_sessions ! 0, history_sessions ! 2] =
             [history_sessions ! 2, history_sessions ! 0]"
    by (simp add: order_asc_def history_sessions_def)
  note t = getChatHistory_two_messages_per_row [of history_world "''home-1''" ?R]
  from t a
  have "getChatHistory history_world ''home-1'' =
          Inr (concat (map messages_of (order_asc created_at (stored_rows history_world ''home-1''))))"
    by blast
  then have h: "getChatHistory history_world ''home-1'' = Inr ?ms"
    by (simp add: s o)
  from t a n
  have "GET ?R history_world (Some ''home-1'') =
             \<lparr> http_status = 200,
               http_body = JObject
                 [(''success'', JBool True),
                  (''messages'', JArray (map (message_json ?R)
                     (concat (map messages_of (order_asc created_at (stored_rows history_world ''home-1'')))))),
                  (''count'', JNumber (of_nat (2 * length (stored_rows history_world ''home-1''))))] \<rparr>"
    by blast
  then have hg: "GET ?R history_world (Some ''home-1'') =
             \<lparr> http_status = 200,
               http_body = JObject
                 [(''success'', JBool True),
                  (''messages'', JArray (map (message_json ?R) ?ms)),
                  (''count'', JNumber 4)] \<rparr>"
    by (simp add: s o)
  have m: "length ?ms = 4" "map message_role ?ms = [user, assistant, user, assistant]"
    "map content ?ms = [Some ''first question'', Some ''first answer'',
                               Some ''second question'', Some ''second answer'']"
    "map timestamp ?ms = [40, 40, 60, 60]"
    by (simp_all add: messages_of_def history_sessions_def)
  from h hg m have hw: "\<exists>ms. getChatHistory history_world ''home-1'' = Inr ms \<and> length ms = 4
          \<and> map message_role ms = [user, assistant, user, assistant]
          \<and> map content ms = [Some ''first question'', Some ''first answer'',
                               Some ''second question'', Some ''second answer'']
          \<and> map timestamp ms = [40, 40, 60, 60]
          \<and> GET example_rendering history_world (Some ''home-1'') =
               \<lparr> http_status = 200,
                 http_body = JObject
                   [(''success'', JBool True),
                    (''messages'', JArray (map (message_json example_rendering) ms)),
                    (''count'', JNumber 4)] \<rparr>"
    by (intro exI [of _ ?ms] conjI)
  have b: "createClient failing_world = None" "chat_select_fault failing_world \<noteq> Healthy"
    by (simp_all add: failing_world_def example_world_def)
  have sf: "length (stored_rows failing_world ''home-1'') = 1"
    by (simp add: stored_rows_def failing_world_def example_world_def example_sessions_def)
  note tf = getChatHistory_two_messages_per_row [of failing_world "''home-1''" ?R]
  from tf b have f: "getChatHistory failing_world ''home-1'' = Inr []" by blast
  from tf b n have fg: "GET ?R failing_world (Some ''home-1'') =
       \<lparr> http_status = 200,
         http_body = JObject
           [(''success'', JBool True), (''messages'', JArray []), (''count'', JNumber 0)] \<rparr>"
    by blast
  have c: "createClient ?W = Some (Error ''no client'')" by simp
  note tw = getChatHistory_two_messages_per_row [of ?W "''home-1''" ?R _ "Error ''no client''"]
  from tw c have g: "getChatHistory ?W ''home-1'' = Inl (Error ''no client'')" by blast
  from tw c n have gg: "GET ?R ?W (Some ''home-1'') =
       \<lparr> http_status = 500,
         http_body = JObject [(''error'', JString ''Failed to fetch chat history'')] \<rparr>"
    by blast
  from a(1) a(2) s hw b(2) sf f fg g gg show ?thesis
    by (intro conjI) simp_all
qed

section \<open>The responses of \<open>POST /api/chat\<close>\<close>

text \<open>
  \<open>POST\<close> on a parsed body that is not \<open>null\<close>.
\<close>

lemma POST_body:
  "body \<noteq> JNull \<Longrightarrow>
   POST R W (Inr body) =
     (let query = property body ''query''; sessionId = property body ''sessionId'' in
      if \<not> truthy query \<or> \<not> truthy sessionId then
        (\<lparr> http_status = 400,
           http_body = JObject [(''error'', JString ''Query and session ID are required'')] \<rparr>, W)
      else
        (case processQuery R W (the query) (the sessionId) of
           (Inl e, W') \<Rightarrow> (chat_failure e, W')
         | (Inr result, W') \<Rightarrow>
             (\<lparr> http_status = 200,
                http_body = JObject
                  [(''success'', JBool True),
                   (''response'', JString (response result)),
                   (''queryType'', JString (queryType result)),
                   (''executionTime'', JNumber (of_int (executionTime result))),
                   (''dataUsed'', JNumber (of_nat (length (dataUsed result)))),
                   (''visualizations'', JArray (map JString (result_visualizations result))),
                   (''timestamp'', JString (now_iso W))] \<rparr>, W')))"
  by (cases body) (simp_all add: POST_def)

lemma property_not_null: "property body k = Some v \<Longrightarrow> body \<noteq> JNull"
  by (auto simp: property_def)

text \<open>
  Claim C8. On a parsed body whose \<open>query\<close> or \<open>sessionId\<close> is missing or empty (falsy),
  \<open>POST\<close> answers 400 with an error object and leaves the world as it was. When the query
  is a non-empty string, the session id is there and the client can be made, it answers 200
  with success, response, queryType, executionTime, dataUsed, visualizations and a time
  stamp, and the chat session is stored. Everything thrown gives 500 with the generic error
  and a detail string: a body that does not parse, a body that is \<open>null\<close>, a client that
  cannot be made, a query that is not a string.
\<close>

theorem POST_responses:
  "(body \<noteq> JNull \<longrightarrow> \<not> truthy (property body ''query'') \<or> \<not> truthy (property body ''sessionId'') \<longrightarrow>
      POST R W (Inr body) =
        (\<lparr> http_status = 400,
           http_body = JObject [(''error'', JString ''Query and session ID are required'')] \<rparr>, W))
   \<and> (property body ''query'' = Some (JString q) \<longrightarrow> q \<noteq> [] \<longrightarrow>
      property body ''sessionId'' = Some s \<longrightarrow> truthy (Some s) \<longrightarrow> createClient W = None \<longrightarrow>
      POST R W (Inr body) =
        (\<lparr> http_status = 200,
           http_body = JObject
             [(''success'', JBool True),
              (''response'', JString (generateResponse R (analyzeQuery q)
                                        (retrieveRelevantData W (analyzeQuery q)))),
              (''queryType'', JString (type (analyzeQuery q))),
              (''executionTime'', JNumber (of_int (endTime W - startTime W))),
              (''dataUsed'', JNumber (of_nat (length (retrieveRelevantData W (analyzeQuery q))))),
              (''visualizations'', JArray (map JString (visualizations (analyzeQuery q)))),
              (''timestamp'', JString (now_iso W))] \<rparr>,
         storeChatSession W s q
           (generateResponse R (analyzeQuery q) (retrieveRelevantData W (analyzeQuery q)))
           (type (analyzeQuery q)) (endTime W - startTime W)))
   \<and> POST R W (Inl e) = (chat_failure e, W)
   \<and> POST R W (Inr JNull) = (chat_failure (Error (cannot_destructure R)), W)
   \<and> (truthy (property body ''query'') \<longrightarrow> truthy (property body ''sessionId'') \<longrightarrow>
      createClient W = Some e \<longrightarrow> POST R W (Inr body) = (chat_failure e, W))
   \<and> (truthy (property body ''query'') \<longrightarrow> truthy (property body ''sessionId'') \<longrightarrow>
      createClient W = None \<longrightarrow> (\<forall>q'. property body ''query'' \<noteq> Some (JString q')) \<longrightarrow>
      POST R W (Inr body) = (chat_failure (Error (not_a_function R)), W))
   \<and> chat_failure e =
       \<lparr> http_status = 500,
         http_body = JObject [(''error'', JString ''Failed to process chat query''),
                              (''details'', JString (case e of Error message \<Rightarrow> message
                                                     | NonError \<Rightarrow> ''Unknown error''))] \<rparr>"
proof (intro conjI impI)
  assume "body \<noteq> JNull"
    and "\<not> truthy (property body ''query'') \<or> \<not> truthy (property body ''sessionId'')"
  then show "POST R W (Inr body) =
        (\<lparr> http_status = 400,
           http_body = JObject [(''error'', JString ''Query and session ID are required'')] \<rparr>, W)"
    by (auto simp: POST_body Let_def)
next
  assume a: "property body ''query'' = Some (JString q)" "q \<noteq> []"
    "property body ''sessionId'' = Some s" "truthy (Some s)" "createClient W = None"
  from a(1) have "body \<noteq> JNull" by (rule property_not_null)
  moreover have "truthy (Some (JString q))" using a(2) by (simp add: truthy_def)
  ultimately show "POST R W (Inr body) =
        (\<lparr> http_status = 200,
           http_body = JObject
             [(''success'', JBool True),
              (''response'', JString (generateResponse R (analyzeQuery q)
                                        (retrieveRelevantData W (analyzeQuery q)))),
              (''queryType'', JString (type (analyzeQuery q))),
              (''executionTime'', JNumber (of_int (endTime W - startTime W))),
              (''dataUsed'', JNumber (of_nat (length (retrieveRelevantData W (analyzeQuery q))))),
              (''visualizations'', JArray (map JString (visualizations (analyzeQuery q)))),
              (''timestamp'', JString (now_iso W))] \<rparr>,
         storeChatSession W s q
           (generateResponse R (analyzeQuery q) (retrieveRelevantData W (analyzeQuery q)))
           (type (analyzeQuery q)) (endTime W - startTime W))"
    using a by (simp add: POST_body Let_def processQuery_def)
next
  show "POST R W (Inl e) = (chat_failure e, W)" by (simp add: POST_def)
next
  show "POST R W (Inr JNull) = (chat_failure (Error (cannot_destructure R)), W)"
    by (simp add: POST_def)
next
  assume a: "truthy (property body ''query'')" "truthy (property body ''sessionId'')"
    "createClient W = Some e"
  from a(1) have "body \<noteq> JNull" by (auto simp: truthy_def property_def)
  then show "POST R W (Inr body) = (chat_failure e, W)"
    using a by (simp add: POST_body Let_def processQuery_def)
next
  assume a: "truthy (property body ''query'')" "truthy (property body ''sessionId'')"
    "createClient W = None" "\<forall>q'. property body ''query'' \<noteq> Some (JString q')"
  from a(1) have n: "body \<noteq> JNull" by (auto simp: truthy_def property_def)
  from a(1) obtain j where j: "property body ''query'' = Some j"
    by (cases "property body ''query''") (auto simp: truthy_def)
  with a(4) have "\<forall>q'. j \<noteq> JString q'" by simp
  then have "processQuery R W j (the (property body ''sessionId'')) = (Inl (Error (not_a_function R)), W)"
    using a(3) by (cases j) (simp_all add: processQuery_def)
  then show "POST R W (Inr body) = (chat_failure (Error (not_a_function R)), W)"
    using n a j by (simp add: POST_body Let_def)
next
  show "chat_failure e =
       \<lparr> http_status = 500,
         http_body = JObject [(''error'', JString ''Failed to process chat query''),
                              (''details'', JString (case e of Error message \<Rightarrow> message
                                                     | NonError \<Rightarrow> ''Unknown error''))] \<rparr>"
    by (simp add: chat_failure_def details_def)
qed

text \<open>
  The query "salinity?" in the example world.
\<close>

lemma example_analysis:
  "analyzeQuery ''salinity?'' =
     \<lparr> type = ''salinity_query'',
       params = \<lparr> p_floatId = None, p_depth = None, p_date = None \<rparr>,
       visualizations = [''salinity_profile'', ''depth_chart''],
       dataNeeded = [''depth_measurements''] \<rparr>"
  by code_simp

text \<open>
  Claim C8 in the example world: a body without session id, a body with an empty query, a
  complete body, the same body when the client cannot be made, and a body whose query is
  a number.
\<close>

theorem POST_responses_witness:
  "POST example_rendering example_world (Inr (JObject [(''query'', JString ''salinity?'')])) =
     (\<lparr> http_status = 400,
        http_body = JObject [(''error'', JString ''Query and session ID are required'')] \<rparr>,
      example_world)
   \<and> POST example_rendering example_world
        (Inr (JObject [(''query'', JString ''''), (''sessionId'', JString ''home-3'')])) =
     (\<lparr> http_status = 400,
        http_body = JObject [(''error'', JString ''Query and session ID are required'')] \<rparr>,
      example_world)
   \<and> fst (POST example_rendering example_world
        (Inr (JObject [(''query'', JString ''salinity?''), (''sessionId'', JString ''home-3'')]))) =
     \<lparr> http_status = 200,
       http_body = JObject
         [(''success'', JBool True),
          (''response'', JString ''I don't have salinity data available for your query. Please specify an ARGO float ID or check if the data has been processed.''),
          (''queryType'', JString ''salinity_query''),
          (''executionTime'', JNumber 12),
          (''dataUsed'', JNumber 0),
          (''visualizations'', JArray [JString ''salinity_profile'', JString ''depth_chart'']),
          (''timestamp'', JString ''2024-12-20T10:30:00.000Z'')] \<rparr>
   \<and> map session_id (chat_sessions (snd (POST example_rendering example_world
        (Inr (JObject [(''query'', JString ''salinity?''), (''sessionId'', JString ''home-3'')]))))) =
     [''home-1'', ''dashboard-2'', ''home-3'']
   \<and> fst (POST example_rendering (example_world\<lparr>createClient := Some (Error ''no client'')\<rparr>)
        (Inr (JObject [(''query'', JString ''salinity?''), (''sessionId'', JString ''home-3'')]))) =
     \<lparr> http_status = 500,
       http_body = JObject [(''error'', JString ''Failed to process chat query''),
                            (''details'', JString ''no client'')] \<rparr>
   \<and> fst (POST example_rendering example_world
        (Inr (JObject [(''query'', JNumber 5), (''sessionId'', JString ''home-3'')]))) =
     \<lparr> http_status = 500,
       http_body = JObject [(''error'', JString ''Failed to process chat query''),
                            (''details'', JString ''query.toLowerCase is not a function'')] \<rparr>"
proof -
  let ?b1 = "JObject [(''query'', JString ''salinity?'')]"
  let ?b2 = "JObject [(''query'', JString ''''), (''sessionId'', JString ''home-3'')]"
  let ?b3 = "JObject [(''query'', JString ''salinity?''), (''sessionId'', JString ''home-3'')]"
  let ?b4 = "JObject [(''query'', JNumber 5), (''sessionId'', JString ''home-3'')]"
  let ?e = "Error ''no client''"
  let ?W = "example_world\<lparr>createClient := Some ?e\<rparr>"
  have p1: "?b1 \<noteq> JNull" "\<not> truthy (property ?b1 ''query'') \<or> \<not> truthy (property ?b1 ''sessionId'')"
    by (simp_all add: property_def truthy_def)
  have p2: "?b2 \<noteq> JNull" "\<not> truthy (property ?b2 ''query'') \<or> \<not> truthy (property ?b2 ''sessionId'')"
    by (simp_all add: property_def truthy_def)
  have p3: "property ?b3 ''query'' = Some (JString ''salinity?'')" "''salinity?'' \<noteq> []"
    "property ?b3 ''sessionId'' = Some (JString ''home-3'')" "truthy (Some (JString ''home-3''))"
    "createClient example_world = None"
    "truthy (property ?b3 ''query'')" "truthy (property ?b3 ''sessionId'')"
    "createClient ?W = Some ?e"
    by (simp_all add: property_def truthy_def example_world_def)
  have p4: "truthy (property ?b4 ''query'')" "truthy (property ?b4 ''sessionId'')"
    "\<forall>q'. property ?b4 ''query'' \<noteq> Some (JString q')"
    by (simp_all add: property_def truthy_def)
  have data: "retrieveRelevantData example_world (analyzeQuery ''salinity?'') = []"
    by (simp add: example_analysis retrieveRelevantData_def truthy_str_def)
  have r1: "POST example_rendering example_world (Inr ?b1) =
     (\<lparr> http_status = 400,
        http_body = JObject [(''error'', JString ''Query and session ID are required'')] \<rparr>,
      example_world)"
    using POST_responses [of ?b1 example_rendering example_world] p1 by blast
  have r2: "POST example_rendering example_world (Inr ?b2) =
     (\<lparr> http_status = 400,
        http_body = JObject [(''error'', JString ''Query and session ID are required'')] \<rparr>,
      example_world)"
    using POST_responses [of ?b2 example_rendering example_world] p2 by blast
  have r3: "POST example_rendering example_world (Inr ?b3) =
        (\<lparr> http_status = 200,
           http_body = JObject
             [(''success'', JBool True),
              (''response'', JString (generateResponse example_rendering (analyzeQuery ''salinity?'')
                                        (retrieveRelevantData example_world (analyzeQuery ''salinity?'')))),
              (''queryType'', JString (type (analyzeQuery ''salinity?''))),
              (''executionTime'', JNumber (of_int (endTime example_world - startTime example_world))),
              (''dataUsed'', JNumber (of_nat (length (retrieveRelevantData example_world (analyzeQuery ''salinity?''))))),
              (''visualizations'', JArray (map JString (visualizations (analyzeQuery ''salinity?'')))),
              (''timestamp'', JString (now_iso example_world))] \<rparr>,
         storeChatSession example_world (JString ''home-3'') ''salinity?''
           (generateResponse example_rendering (analyzeQuery ''salinity?'')
              (retrieveRelevantData example_world (analyzeQuery ''salinity?'')))
           (type (analyzeQuery ''salinity?'')) (endTime example_world - startTime example_world))"
    using POST_responses [of ?b3 example_rendering example_world "''salinity?''" "JString ''home-3''"]
      p3(1-5) by blast
  have r4: "POST example_rendering ?W (Inr ?b3) = (chat_failure ?e, ?W)"
    using POST_responses [where body = ?b3 and R = example_rendering and W = ?W and e = ?e] p3(6-8) by blast
  have r5: "POST example_rendering example_world (Inr ?b4) =
              (chat_failure (Error (not_a_function example_rendering)), example_world)"
    using POST_responses [of ?b4 example_rendering example_world] p4 p3(5) by blast
  have s3: "fst (POST example_rendering example_world (Inr ?b3)) =
     \<lparr> http_status = 200,
       http_body = JObject
         [(''success'', JBool True),
          (''response'', JString ''I don't have salinity data available for your query. Please specify an ARGO float ID or check if the data has been processed.''),
          (''queryType'', JString ''salinity_query''),
          (''executionTime'', JNumber 12),
          (''dataUsed'', JNumber 0),
          (''visualizations'', JArray [JString ''salinity_profile'', JString ''depth_chart'']),
          (''timestamp'', JString ''2024-12-20T10:30:00.000Z'')] \<rparr>"
    unfolding r3 data
    by (simp add: example_analysis generateResponse_def generateSalinityResponse_def example_world_def)
  have t3: "map session_id (chat_sessions (snd (POST example_rendering example_world (Inr ?b3)))) =
     [''home-1'', ''dashboard-2'', ''home-3'']"
    unfolding r3 data
    by (simp add: storeChatSession_def session_text_def example_world_def example_sessions_def)
  have s4: "fst (POST example_rendering ?W (Inr ?b3)) =
     \<lparr> http_status = 500,
       http_body = JObject [(''error'', JString ''Failed to process chat query''),
                            (''details'', JString ''no client'')] \<rparr>"
    unfolding r4 by (simp add: chat_failure_def details_def)
  have s5: "fst (POST example_rendering example_world (Inr ?b4)) =
     \<lparr> http_status = 500,
       http_body = JObject [(''error'', JString ''Failed to process chat query''),
                            (''details'', JString ''query.toLowerCase is not a function'')] \<rparr>"
    unfolding r5 by (simp add: chat_failure_def details_def example_rendering_def)
  from r1 r2 s3 t3 s4 s5 show ?thesis by blast
qed

section \<open>The file name of \<open>processNetCDFFile\<close>\<close>

text \<open>
  What the matcher accepts, pattern by pattern: the states after a pattern as a set. The
  equations of \<open>run\<close> are used by name from here on.
\<close>

declare run.simps [simp del]

lemma run_Chr_mem:
  "(r, c') \<in> set (run (Chr P) (s, c)) \<longleftrightarrow> (\<exists>x. s = x # r \<and> P x) \<and> c' = c"
  by (cases s) (auto simp: run.simps(1))

lemma run_Seq_mem:
  "st'' \<in> set (run (Seq a b) st) \<longleftrightarrow> (\<exists>st' \<in> set (run a st). st'' \<in> set (run b st'))"
  by (simp add: run.simps(3))

lemma run_Star_Chr_Nil: "run (Star (Chr P)) ([], c) = [([], c)]"
  by (simp add: run.simps(5) run.simps(1))

lemma run_Star_Chr_Cons:
  "run (Star (Chr P)) (x # xs, c) =
     (if P x then run (Star (Chr P)) (xs, c) @ [(x # xs, c)] else [(x # xs, c)])"
  by (simp add: run.simps(5) [of "Chr P" "x # xs"] run.simps(1))

lemma run_Star_Chr_mem:
  "(r, c') \<in> set (run (Star (Chr P)) (s, c)) \<longleftrightarrow> (\<exists>g. s = g @ r \<and> list_all P g) \<and> c' = c"
proof (induction s)
  case Nil
  show ?case by (auto simp: run_Star_Chr_Nil)
next
  case (Cons x xs)
  show ?case
  proof (cases "P x")
    case False
    have "(\<exists>g. x # xs = g @ r \<and> list_all P g) \<longleftrightarrow> r = x # xs"
    proof
      assume "\<exists>g. x # xs = g @ r \<and> list_all P g"
      then obtain g where g: "x # xs = g @ r" "list_all P g" by blast
      show "r = x # xs"
      proof (cases g)
        case Nil
        with g show ?thesis by simp
      next
        case (Cons y ys)
        with g False show ?thesis by simp
      qed
    next
      assume "r = x # xs"
      then have "x # xs = [] @ r \<and> list_all P []" by simp
      then show "\<exists>g. x # xs = g @ r \<and> list_all P g" by blast
    qed
    with False show ?thesis by (auto simp: run_Star_Chr_Cons)
  next
    case True
    have "(\<exists>g. x # xs = g @ r \<and> list_all P g) \<longleftrightarrow> r = x # xs \<or> (\<exists>g. xs = g @ r \<and> list_all P g)"
    proof
      assume "\<exists>g. x # xs = g @ r \<and> list_all P g"
      then obtain g where g: "x # xs = g @ r" "list_all P g" by blast
      show "r = x # xs \<or> (\<exists>g. xs = g @ r \<and> list_all P g)"
      proof (cases g)
        case Nil
        with g show ?thesis by simp
      next
        case (Cons y ys)
        with g have "xs = ys @ r \<and> list_all P ys" by simp
        then show ?thesis by blast
      qed
    next
      assume "r = x # xs \<or> (\<exists>g. xs = g @ r \<and> list_all P g)"
      then show "\<exists>g. x # xs = g @ r \<and> list_all P g"
      proof
        assume "r = x # xs"
        then have "x # xs = [] @ r \<and> list_all P []" by simp
        then show ?thesis by blast
      next
        assume "\<exists>g. xs = g @ r \<and> list_all P g"
        then obtain g where "xs = g @ r" "list_all P g" by blast
        with True have "x # xs = (x # g) @ r \<and> list_all P (x # g)" by simp
        then show ?thesis by blast
      qed
    qed
    with True Cons.IH show ?thesis by (auto simp: run_Star_Chr_Cons)
  qed
qed

lemma run_Plus_Chr_mem:
  "(r, c') \<in> set (run (Plus (Chr P)) (s, c)) \<longleftrightarrow>
     (\<exists>g. s = g @ r \<and> g \<noteq> [] \<and> list_all P g) \<and> c' = c"
proof
  assume "(r, c') \<in> set (run (Plus (Chr P)) (s, c))"
  then obtain r1 c1 where a: "(r1, c1) \<in> set (run (Chr P) (s, c))"
    and b: "(r, c') \<in> set (run (Star (Chr P)) (r1, c1))"
    unfolding Plus_def run_Seq_mem by auto
  from a obtain x where x: "s = x # r1" "P x" "c1 = c" unfolding run_Chr_mem by blast
  from b obtain g where g: "r1 = g @ r" "list_all P g" "c' = c1" unfolding run_Star_Chr_mem by blast
  from x g have "s = (x # g) @ r \<and> x # g \<noteq> [] \<and> list_all P (x # g)" by simp
  with x g show "(\<exists>g. s = g @ r \<and> g \<noteq> [] \<and> list_all P g) \<and> c' = c" by blast
next
  assume "(\<exists>g. s = g @ r \<and> g \<noteq> [] \<and> list_all P g) \<and> c' = c"
  then obtain g where g: "s = g @ r" "g \<noteq> []" "list_all P g" and c: "c' = c" by blast
  from g(2) obtain x g' where xg: "g = x # g'" by (cases g) auto
  with g have "(g' @ r, c) \<in> set (run (Chr P) (s, c))" unfolding run_Chr_mem by simp
  moreover from g xg have "(r, c') \<in> set (run (Star (Chr P)) (g' @ r, c))"
    unfolding run_Star_Chr_mem using c by auto
  ultimately show "(r, c') \<in> set (run (Plus (Chr P)) (s, c))"
    unfolding Plus_def run_Seq_mem by blast
qed

lemma run_Grp_mem:
  "(r, c') \<in> set (run (Grp i a) (s, c)) \<longleftrightarrow>
     (\<exists>c0. (r, c0) \<in> set (run a (s, c)) \<and> c' = (i, take (length s - length r) s) # c0)"
  by (auto simp: run.simps(6))

lemma run_lit_mem:
  "(r, c') \<in> set (run (lit k) (s, c)) \<longleftrightarrow> s = k # r \<and> c' = c"
  unfolding lit_def run_Chr_mem by auto

lemma run_lits_mem:
  "(r, c') \<in> set (run (lits t) (s, c)) \<longleftrightarrow> s = t @ r \<and> c' = c"
proof (induction t arbitrary: s)
  case Nil
  show ?case by (auto simp: lits_def run.simps(2))
next
  case (Cons k t)
  have "lits (k # t) = Seq (lit k) (lits t)" by (simp add: lits_def)
  then have "(r, c') \<in> set (run (lits (k # t)) (s, c)) \<longleftrightarrow>
               (\<exists>r1 c1. (r1, c1) \<in> set (run (lit k) (s, c)) \<and> (r, c') \<in> set (run (lits t) (r1, c1)))"
    by (simp only: run_Seq_mem) auto
  also have "\<dots> \<longleftrightarrow> (\<exists>r1. s = k # r1 \<and> r1 = t @ r \<and> c' = c)"
    by (auto simp: run_lit_mem Cons.IH)
  also have "\<dots> \<longleftrightarrow> s = (k # t) @ r \<and> c' = c" by auto
  finally show ?case .
qed

lemma run_digits_group_mem:
  "(r, c') \<in> set (run (Grp i (Plus digit)) (s, c)) \<longleftrightarrow>
     (\<exists>g. s = g @ r \<and> digits1 g \<and> c' = (i, g) # c)"
  unfolding run_Grp_mem digit_def run_Plus_Chr_mem digits1_def by auto

lemma not_digit [simp]: "\<not> is_digit CHR ''_''" "\<not> is_digit CHR ''.''"
  by (simp_all add: is_digit_def)

lemma digits_then_stop:
  assumes "list_all is_digit g" and "\<not> is_digit x"
  shows "takeWhile is_digit (g @ x # r) = g" and "dropWhile is_digit (g @ x # r) = x # r"
  using assms by (induction g) simp_all

text \<open>
  The file-name pattern at the start of a text: the letter R, digits, an underscore, digits
  and \<open>.nc\<close>; the groups are the two runs of digits.
\<close>

lemma run_filename_mem:
  "(post, caps) \<in> set (run re_filename (s, c)) \<longleftrightarrow>
     (\<exists>g1 g2. s = ''R'' @ g1 @ ''_'' @ g2 @ ''.nc'' @ post \<and> digits1 g1 \<and> digits1 g2
        \<and> caps = (2, g2) # (1, g1) # c)"
proof -
  have "(post, caps) \<in> set (run re_filename (s, c)) \<longleftrightarrow>
          (\<exists>r1 r2 r3 r4 c2 c4.
             s = CHR ''R'' # r1
             \<and> (r2, c2) \<in> set (run (Grp 1 (Plus digit)) (r1, c))
             \<and> r2 = CHR ''_'' # r3
             \<and> (r4, c4) \<in> set (run (Grp 2 (Plus digit)) (r3, c2))
             \<and> r4 = ''.nc'' @ post \<and> caps = c4)"
    unfolding re_filename_def run_Seq_mem
    by (simp add: run_lit_mem run_lits_mem Bex_def) blast
  also have "\<dots> \<longleftrightarrow>
          (\<exists>g1 g2. s = ''R'' @ g1 @ ''_'' @ g2 @ ''.nc'' @ post \<and> digits1 g1 \<and> digits1 g2
             \<and> caps = (2, g2) # (1, g1) # c)"
    unfolding run_digits_group_mem by auto
  finally show ?thesis .
qed

text \<open>
  A text starts with the file-name form in one way only, since a run of digits ends at the
  underscore and at the dot.
\<close>

lemma filename_groups_unique:
  assumes "''R'' @ g1 @ ''_'' @ g2 @ ''.nc'' @ post = ''R'' @ h1 @ ''_'' @ h2 @ ''.nc'' @ post'"
    and "digits1 g1" "digits1 g2" "digits1 h1" "digits1 h2"
  shows "g1 = h1 \<and> g2 = h2 \<and> post = post'"
proof -
  from assms(1) have e: "g1 @ CHR ''_'' # (g2 @ ''.nc'' @ post) = h1 @ CHR ''_'' # (h2 @ ''.nc'' @ post')"
    by simp
  have "takeWhile is_digit (g1 @ CHR ''_'' # (g2 @ ''.nc'' @ post)) = g1"
    using assms(2) by (intro digits_then_stop) (simp_all add: digits1_def)
  moreover have "takeWhile is_digit (h1 @ CHR ''_'' # (h2 @ ''.nc'' @ post')) = h1"
    using assms(4) by (intro digits_then_stop) (simp_all add: digits1_def)
  ultimately have g: "g1 = h1" using e by simp
  with e have e2: "g2 @ CHR ''.'' # (''nc'' @ post) = h2 @ CHR ''.'' # (''nc'' @ post')" by simp
  have "takeWhile is_digit (g2 @ CHR ''.'' # (''nc'' @ post)) = g2"
    using assms(3) by (intro digits_then_stop) (simp_all add: digits1_def)
  moreover have "takeWhile is_digit (h2 @ CHR ''.'' # (''nc'' @ post')) = h2"
    using assms(5) by (intro digits_then_stop) (simp_all add: digits1_def)
  ultimately have h: "g2 = h2" using e2 by simp
  with e2 have "post = post'" by simp
  with g h show ?thesis by simp
qed

lemma exec_at_None: "exec_at r s = None \<longleftrightarrow> run r (s, []) = []"
  by (auto simp: exec_at_def split: list.splits)

lemma exec_at_Some:
  "exec_at r s = Some m \<Longrightarrow> \<exists>rest caps. (rest, caps) \<in> set (run r (s, [])) \<and> m = map_of caps"
  by (auto simp: exec_at_def split: list.splits)

lemma exec_at_filename_Some:
  assumes "exec_at re_filename s = Some m"
  shows "\<exists>g1 g2 post. s = ''R'' @ g1 @ ''_'' @ g2 @ ''.nc'' @ post \<and> digits1 g1 \<and> digits1 g2
           \<and> m 1 = Some g1 \<and> m 2 = Some g2"
proof -
  from exec_at_Some [OF assms] obtain rest caps
    where "(rest, caps) \<in> set (run re_filename (s, []))" and m: "m = map_of caps" by blast
  then obtain g1 g2 where "s = ''R'' @ g1 @ ''_'' @ g2 @ ''.nc'' @ rest" "digits1 g1" "digits1 g2"
    "caps = [(2, g2), (1, g1)]"
    unfolding run_filename_mem by blast
  with m show ?thesis by auto
qed

lemma exec_at_filename_form:
  assumes "digits1 g1" and "digits1 g2"
  shows "\<exists>m. exec_at re_filename (''R'' @ g1 @ ''_'' @ g2 @ ''.nc'' @ post) = Some m
           \<and> m 1 = Some g1 \<and> m 2 = Some g2"
proof -
  let ?s = "''R'' @ g1 @ ''_'' @ g2 @ ''.nc'' @ post"
  have "(post, [(2, g2), (1, g1)]) \<in> set (run re_filename (?s, []))"
    unfolding run_filename_mem using assms by blast
  then have "run re_filename (?s, []) \<noteq> []" by auto
  then obtain m where m: "exec_at re_filename ?s = Some m"
    using exec_at_None [of re_filename ?s] by (cases "exec_at re_filename ?s") auto
  from exec_at_filename_Some [OF m] obtain h1 h2 post'
    where h: "?s = ''R'' @ h1 @ ''_'' @ h2 @ ''.nc'' @ post'" "digits1 h1" "digits1 h2"
      "m 1 = Some h1" "m 2 = Some h2" by blast
  from filename_groups_unique [OF h(1) assms h(2,3)] have "g1 = h1 \<and> g2 = h2" by simp
  with m h show ?thesis by simp
qed

lemma exec_at_filename_None:
  "exec_at re_filename s = None \<longleftrightarrow>
     \<not> (\<exists>g1 g2 post. s = ''R'' @ g1 @ ''_'' @ g2 @ ''.nc'' @ post \<and> digits1 g1 \<and> digits1 g2)"
proof
  assume n: "exec_at re_filename s = None"
  show "\<not> (\<exists>g1 g2 post. s = ''R'' @ g1 @ ''_'' @ g2 @ ''.nc'' @ post \<and> digits1 g1 \<and> digits1 g2)"
  proof
    assume "\<exists>g1 g2 post. s = ''R'' @ g1 @ ''_'' @ g2 @ ''.nc'' @ post \<and> digits1 g1 \<and> digits1 g2"
    then obtain g1 g2 post where "s = ''R'' @ g1 @ ''_'' @ g2 @ ''.nc'' @ post" "digits1 g1" "digits1 g2"
      by blast
    with exec_at_filename_form [of g1 g2 post] n show False by auto
  qed
next
  assume a: "\<not> (\<exists>g1 g2 post. s = ''R'' @ g1 @ ''_'' @ g2 @ ''.nc'' @ post \<and> digits1 g1 \<and> digits1 g2)"
  show "exec_at re_filename s = None"
  proof (cases "exec_at re_filename s")
    case None
    then show ?thesis .
  next
    case (Some m)
    from exec_at_filename_Some [OF Some] a show ?thesis by blast
  qed
qed

text \<open>\<open>match\<close> returns the match at the least start index.\<close>

lemma match_Some:
  "match f r = Some m \<Longrightarrow>
     \<exists>pre suf. f = pre @ suf \<and> exec_at r suf = Some m
       \<and> (\<forall>pre' suf'. f = pre' @ suf' \<and> length pre' < length pre \<longrightarrow> exec_at r suf' = None)"
proof (induction f)
  case Nil
  then have "exec_at r [] = Some m" by simp
  then show ?case
    by (intro exI [of _ "[]"]) simp
next
  case (Cons x xs)
  show ?case
  proof (cases "exec_at r (x # xs)")
    case (Some m')
    with Cons.prems have "exec_at r (x # xs) = Some m" by simp
    then show ?thesis
      by (intro exI [of _ "[]"] exI [of _ "x # xs"]) simp
  next
    case None
    with Cons.prems have "match xs r = Some m" by simp
    from Cons.IH [OF this] obtain pre suf where p1: "xs = pre @ suf" and p2: "exec_at r suf = Some m"
      and p3: "\<And>pre' suf'. xs = pre' @ suf' \<Longrightarrow> length pre' < length pre \<Longrightarrow> exec_at r suf' = None"
      by blast
    have least: "exec_at r suf' = None"
      if "x # xs = pre' @ suf'" and "length pre' < length (x # pre)" for pre' suf'
    proof (cases pre')
      case Nil
      with that(1) have "suf' = x # xs" by simp
      with None show ?thesis by simp
    next
      case (Cons y ys)
      with that have "xs = ys @ suf'" and "length ys < length pre" by simp_all
      then show ?thesis by (rule p3)
    qed
    show ?thesis
    proof (intro exI conjI allI impI)
      show "x # xs = (x # pre) @ suf" using p1 by simp
      show "exec_at r suf = Some m" by (rule p2)
      fix pre' suf' assume "x # xs = pre' @ suf' \<and> length pre' < length (x # pre)"
      then show "exec_at r suf' = None" using least by blast
    qed
  qed
qed

lemma match_None:
  "match f r = None \<longleftrightarrow> (\<forall>pre suf. f = pre @ suf \<longrightarrow> exec_at r suf = None)"
proof (induction f)
  case Nil
  show ?case by simp
next
  case (Cons x xs)
  show ?case
  proof (cases "exec_at r (x # xs)")
    case (Some m)
    then have "\<not> (\<forall>pre suf. x # xs = pre @ suf \<longrightarrow> exec_at r suf = None)"
      by (metis append_Nil option.distinct(1))
    with Some show ?thesis by simp
  next
    case None
    have "(\<forall>pre suf. x # xs = pre @ suf \<longrightarrow> exec_at r suf = None) \<longleftrightarrow>
          (\<forall>pre suf. xs = pre @ suf \<longrightarrow> exec_at r suf = None)"
    proof
      assume a: "\<forall>pre suf. x # xs = pre @ suf \<longrightarrow> exec_at r suf = None"
      show "\<forall>pre suf. xs = pre @ suf \<longrightarrow> exec_at r suf = None"
      proof (intro allI impI)
        fix pre suf assume "xs = pre @ suf"
        then have "x # xs = (x # pre) @ suf" by simp
        with a show "exec_at r suf = None" by blast
      qed
    next
      assume a: "\<forall>pre suf. xs = pre @ suf \<longrightarrow> exec_at r suf = None"
      show "\<forall>pre suf. x # xs = pre @ suf \<longrightarrow> exec_at r suf = None"
      proof (intro allI impI)
        fix pre suf assume e: "x # xs = pre @ suf"
        show "exec_at r suf = None"
        proof (cases pre)
          case Nil
          with e None show ?thesis by simp
        next
          case (Cons y ys)
          with e have "xs = ys @ suf" by simp
          with a show ?thesis by blast
        qed
      qed
    qed
    with None Cons.IH show ?thesis by simp
  qed
qed

lemma match_at_start: "exec_at r f = Some m \<Longrightarrow> match f r = Some m"
  by (cases f) simp_all

lemma digits1_takeWhile: "takeWhile is_digit s \<noteq> [] \<Longrightarrow> digits1 (takeWhile is_digit s)"
  by (simp add: digits1_def list_all_iff) (meson set_takeWhileD)

text \<open>
  The form of the whole file name, as a decomposition.
\<close>

lemma filename_form_iff:
  "filename_form f \<longleftrightarrow>
     (\<exists>g1 g2. digits1 g1 \<and> digits1 g2 \<and> f = ''R'' @ g1 @ ''_'' @ g2 @ ''.nc'')"
proof
  assume a: "filename_form f"
  then obtain rest where f: "f = CHR ''R'' # rest"
    by (cases f) (auto simp: filename_form_def)
  let ?g1 = "takeWhile is_digit rest"
  from a f have g1: "digits1 ?g1" by (simp add: filename_form_def)
  from a f obtain rest' where r: "dropWhile is_digit rest = CHR ''_'' # rest'"
    by (cases "dropWhile is_digit rest") (auto simp: filename_form_def)
  let ?g2 = "takeWhile is_digit rest'"
  from a f r have g2: "digits1 ?g2" and e: "dropWhile is_digit rest' = ''.nc''"
    by (simp_all add: filename_form_def)
  have "rest = ?g1 @ dropWhile is_digit rest" by simp
  also have "\<dots> = ?g1 @ CHR ''_'' # rest'" by (simp only: r)
  also have "rest' = ?g2 @ dropWhile is_digit rest'" by simp
  finally have "rest = ?g1 @ CHR ''_'' # ?g2 @ ''.nc''" by (simp only: e)
  with f have "f = ''R'' @ ?g1 @ ''_'' @ ?g2 @ ''.nc''" by simp
  with g1 g2 show "\<exists>g1 g2. digits1 g1 \<and> digits1 g2 \<and> f = ''R'' @ g1 @ ''_'' @ g2 @ ''.nc''"
    by blast
next
  assume "\<exists>g1 g2. digits1 g1 \<and> digits1 g2 \<and> f = ''R'' @ g1 @ ''_'' @ g2 @ ''.nc''"
  then obtain g1 g2 where g: "digits1 g1" "digits1 g2" and f: "f = ''R'' @ g1 @ ''_'' @ g2 @ ''.nc''"
    by blast
  from g have d: "list_all is_digit g1" "list_all is_digit g2" by (simp_all add: digits1_def)
  have t1: "takeWhile is_digit (g1 @ CHR ''_'' # g2 @ ''.nc'') = g1"
    and d1: "dropWhile is_digit (g1 @ CHR ''_'' # g2 @ ''.nc'') = CHR ''_'' # g2 @ ''.nc''"
    using d(1) by (simp_all add: digits_then_stop)
  have t2: "takeWhile is_digit (g2 @ CHR ''.'' # ''nc'') = g2"
    and d2: "dropWhile is_digit (g2 @ CHR ''.'' # ''nc'') = CHR ''.'' # ''nc''"
    using d(2) by (simp_all add: digits_then_stop)
  show "filename_form f"
    using g t1 d1 t2 d2 by (simp add: f filename_form_def)
qed

lemma parseInt_digits1:
  "digits1 g \<Longrightarrow>
     parseInt g = (if decimal g \<le> MAX_SAFE_INTEGER then Exact (decimal g) else Rounded)"
  by (simp add: parseInt_def digits1_def list_all_iff takeWhile_eq_all_conv [THEN iffD2])

text \<open>
  The two outcomes of \<open>processNetCDFFile\<close>: no occurrence of the form and the format
  error, or the profile of the leftmost occurrence.
\<close>

lemma processNetCDFFile_cases:
  "match f re_filename = None
     \<and> processNetCDFFile f = Inl (Error (''Invalid NetCDF filename format: '' @ f))
   \<or> (\<exists>pre g1 g2 post.
         f = pre @ ''R'' @ g1 @ ''_'' @ g2 @ ''.nc'' @ post \<and> digits1 g1 \<and> digits1 g2
         \<and> (\<forall>pre' suf'. f = pre' @ suf' \<and> length pre' < length pre
               \<longrightarrow> exec_at re_filename suf' = None)
         \<and> processNetCDFFile f =
             Inr \<lparr> floatId = g1, platformNumber = g1, cycleNumber = parseInt g2,
                   measurements = generateDepthMeasurements,
                   bgcData = generateBGCMeasurements \<rparr>)"
proof (cases "match f re_filename")
  case None
  then show ?thesis by (simp add: processNetCDFFile_def)
next
  case (Some m)
  from match_Some [OF Some] obtain pre suf where p: "f = pre @ suf"
    "exec_at re_filename suf = Some m"
    "\<forall>pre' suf'. f = pre' @ suf' \<and> length pre' < length pre \<longrightarrow> exec_at re_filename suf' = None"
    by blast
  from exec_at_filename_Some [OF p(2)] obtain g1 g2 post
    where g: "suf = ''R'' @ g1 @ ''_'' @ g2 @ ''.nc'' @ post" "digits1 g1" "digits1 g2"
      "m 1 = Some g1" "m 2 = Some g2" by blast
  have "processNetCDFFile f =
          Inr \<lparr> floatId = g1, platformNumber = g1, cycleNumber = parseInt g2,
                measurements = generateDepthMeasurements,
                bgcData = generateBGCMeasurements \<rparr>"
    using Some g(4,5) by (simp add: processNetCDFFile_def)
  moreover have "f = pre @ ''R'' @ g1 @ ''_'' @ g2 @ ''.nc'' @ post"
    using p(1) g(1) by simp
  ultimately show ?thesis using g(2,3) p(3) by blast
qed

lemma contains_form_match:
  assumes "f = pre @ ''R'' @ g1 @ ''_'' @ g2 @ ''.nc'' @ post" and "digits1 g1" and "digits1 g2"
  shows "match f re_filename \<noteq> None"
proof
  assume "match f re_filename = None"
  then have "exec_at re_filename (''R'' @ g1 @ ''_'' @ g2 @ ''.nc'' @ post) = None"
    unfolding match_None using assms(1) by blast
  with exec_at_filename_form [OF assms(2,3), of post] show False by auto
qed

text \<open>
  Claim C4, as amended. \<open>processNetCDFFile\<close> succeeds if and only if the file name
  contains, anywhere, a part of the form \<open>R<digits>_<digits>.nc\<close>. The profile it returns
  has the groups of the leftmost such part: \<open>floatId\<close> (and \<open>platformNumber\<close>) is the first
  run of digits as a string, \<open>cycleNumber\<close> is the second run read by \<open>parseInt\<close>. For a
  name that starts with the form, and so for a name that is of the form, these are the
  name's own two runs of digits, the second as the integer it writes when that is at most
  \<open>Number.MAX_SAFE_INTEGER\<close>. A name that contains no such part is refused with the error
  "Invalid NetCDF filename format: " followed by the name.
\<close>

theorem processNetCDFFile_filename:
  "((\<exists>p. processNetCDFFile f = Inr p) \<longleftrightarrow>
      (\<exists>pre g1 g2 post. f = pre @ ''R'' @ g1 @ ''_'' @ g2 @ ''.nc'' @ post
         \<and> digits1 g1 \<and> digits1 g2))
   \<and> (processNetCDFFile f = Inr p \<longrightarrow>
        (\<exists>pre g1 g2 post. f = pre @ ''R'' @ g1 @ ''_'' @ g2 @ ''.nc'' @ post
           \<and> digits1 g1 \<and> digits1 g2
           \<and> floatId p = g1 \<and> platformNumber p = g1 \<and> cycleNumber p = parseInt g2
           \<and> (\<forall>pre' h1 h2 post'. f = pre' @ ''R'' @ h1 @ ''_'' @ h2 @ ''.nc'' @ post'
                  \<and> digits1 h1 \<and> digits1 h2 \<longrightarrow> length pre \<le> length pre')))
   \<and> (digits1 g1 \<longrightarrow> digits1 g2 \<longrightarrow>
        processNetCDFFile (''R'' @ g1 @ ''_'' @ g2 @ ''.nc'' @ post) =
          Inr \<lparr> floatId = g1, platformNumber = g1,
                cycleNumber = (if decimal g2 \<le> MAX_SAFE_INTEGER then Exact (decimal g2) else Rounded),
                measurements = generateDepthMeasurements,
                bgcData = generateBGCMeasurements \<rparr>)
   \<and> ((\<forall>p. processNetCDFFile f \<noteq> Inr p) \<longrightarrow>
        processNetCDFFile f = Inl (Error (''Invalid NetCDF filename format: '' @ f)))"
proof (intro conjI impI)
  show "(\<exists>p. processNetCDFFile f = Inr p) \<longleftrightarrow>
      (\<exists>pre g1 g2 post. f = pre @ ''R'' @ g1 @ ''_'' @ g2 @ ''.nc'' @ post
         \<and> digits1 g1 \<and> digits1 g2)"
  proof
    assume "\<exists>p. processNetCDFFile f = Inr p"
    with processNetCDFFile_cases [of f]
    show "\<exists>pre g1 g2 post. f = pre @ ''R'' @ g1 @ ''_'' @ g2 @ ''.nc'' @ post
         \<and> digits1 g1 \<and> digits1 g2"
      by auto
  next
    assume "\<exists>pre g1 g2 post. f = pre @ ''R'' @ g1 @ ''_'' @ g2 @ ''.nc'' @ post
         \<and> digits1 g1 \<and> digits1 g2"
    then have "match f re_filename \<noteq> None" using contains_form_match by blast
    with processNetCDFFile_cases [of f] show "\<exists>p. processNetCDFFile f = Inr p" by blast
  qed
next
  assume a: "processNetCDFFile f = Inr p"
  with processNetCDFFile_cases [of f] obtain pre g1 g2 post
    where c: "f = pre @ ''R'' @ g1 @ ''_'' @ g2 @ ''.nc'' @ post" "digits1 g1" "digits1 g2"
      "\<forall>pre' suf'. f = pre' @ suf' \<and> length pre' < length pre \<longrightarrow> exec_at re_filename suf' = None"
      "processNetCDFFile f =
             Inr \<lparr> floatId = g1, platformNumber = g1, cycleNumber = parseInt g2,
                   measurements = generateDepthMeasurements,
                   bgcData = generateBGCMeasurements \<rparr>"
    by auto
  from a c(5) have fields: "floatId p = g1 \<and> platformNumber p = g1 \<and> cycleNumber p = parseInt g2"
    by auto
  have least: "length pre \<le> length pre'"
    if "f = pre' @ ''R'' @ h1 @ ''_'' @ h2 @ ''.nc'' @ post' \<and> digits1 h1 \<and> digits1 h2"
    for pre' h1 h2 post'
  proof (rule ccontr)
    assume "\<not> length pre \<le> length pre'"
    then have "length pre' < length pre" by simp
    with c(4) that have "exec_at re_filename (''R'' @ h1 @ ''_'' @ h2 @ ''.nc'' @ post') = None"
      by blast
    with exec_at_filename_form [of h1 h2 post'] that show False by auto
  qed
  from c(1-3) fields least
  show "\<exists>pre g1 g2 post. f = pre @ ''R'' @ g1 @ ''_'' @ g2 @ ''.nc'' @ post
           \<and> digits1 g1 \<and> digits1 g2
           \<and> floatId p = g1 \<and> platformNumber p = g1 \<and> cycleNumber p = parseInt g2
           \<and> (\<forall>pre' h1 h2 post'. f = pre' @ ''R'' @ h1 @ ''_'' @ h2 @ ''.nc'' @ post'
                  \<and> digits1 h1 \<and> digits1 h2 \<longrightarrow> length pre \<le> length pre')"
    by blast
next
  assume g: "digits1 g1" "digits1 g2"
  let ?s = "''R'' @ g1 @ ''_'' @ g2 @ ''.nc'' @ post"
  from exec_at_filename_form [OF g, of post] obtain m
    where m: "exec_at re_filename ?s = Some m" "m 1 = Some g1" "m 2 = Some g2" by blast
  from match_at_start [OF m(1)] have "match ?s re_filename = Some m" .
  then have "processNetCDFFile ?s =
          Inr \<lparr> floatId = g1, platformNumber = g1, cycleNumber = parseInt g2,
                measurements = generateDepthMeasurements,
                bgcData = generateBGCMeasurements \<rparr>"
    using m(2,3) by (simp add: processNetCDFFile_def)
  then show "processNetCDFFile ?s =
          Inr \<lparr> floatId = g1, platformNumber = g1,
                cycleNumber = (if decimal g2 \<le> MAX_SAFE_INTEGER then Exact (decimal g2) else Rounded),
                measurements = generateDepthMeasurements,
                bgcData = generateBGCMeasurements \<rparr>"
    by (simp only: parseInt_digits1 [OF g(2)])
next
  assume "\<forall>p. processNetCDFFile f \<noteq> Inr p"
  with processNetCDFFile_cases [of f]
  show "processNetCDFFile f = Inl (Error (''Invalid NetCDF filename format: '' @ f))"
    by auto
qed

text \<open>
  Claim C4 as stated fails: the name "xR12_3.ncy" is not of the form
  \<open>R<digits>_<digits>.nc\<close>, and \<open>processNetCDFFile\<close> returns a profile for it.
\<close>

theorem processNetCDFFile_whole_name_counterexample:
  "\<not> filename_form ''xR12_3.ncy''
   \<and> processNetCDFFile ''xR12_3.ncy'' =
       Inr \<lparr> floatId = ''12'', platformNumber = ''12'', cycleNumber = Exact 3,
             measurements = generateDepthMeasurements,
             bgcData = generateBGCMeasurements \<rparr>"
  by (simp add: filename_form_def processNetCDFFile_def re_filename_def regex_defs number_defs
        run.simps)

text \<open>
  Claim C4 at three names: one that contains the form inside, the example name of the
  source, and one without the dot.
\<close>

theorem processNetCDFFile_filename_witness:
  "(\<exists>p. processNetCDFFile ''xR12_3.ncy'' = Inr p)
   \<and> processNetCDFFile ''R5906468_245.nc'' =
     Inr \<lparr> floatId = ''5906468'', platformNumber = ''5906468'', cycleNumber = Exact 245,
           measurements = generateDepthMeasurements,
           bgcData = generateBGCMeasurements \<rparr>
   \<and> digits1 ''5906468'' \<and> digits1 ''245''
   \<and> (\<forall>p. processNetCDFFile ''R12_3nc'' \<noteq> Inr p)
   \<and> processNetCDFFile ''R12_3nc'' = Inl (Error ''Invalid NetCDF filename format: R12_3nc'')"
proof -
  have d: "digits1 ''5906468''" "digits1 ''245''" by (simp_all add: digits1_def is_digit_def)
  have v: "decimal ''245'' = 245" by (simp add: number_defs)
  have a: "processNetCDFFile ''R5906468_245.nc'' =
     Inr \<lparr> floatId = ''5906468'', platformNumber = ''5906468'', cycleNumber = Exact 245,
           measurements = generateDepthMeasurements,
           bgcData = generateBGCMeasurements \<rparr>"
    using processNetCDFFile_filename [of _ _ "''5906468''" "''245''" "[]"] d
    by (simp add: v MAX_SAFE_INTEGER_def)
  have n: "\<forall>p. processNetCDFFile ''R12_3nc'' \<noteq> Inr p"
    by (simp add: processNetCDFFile_def re_filename_def regex_defs run.simps)
  have b: "processNetCDFFile ''R12_3nc'' = Inl (Error ''Invalid NetCDF filename format: R12_3nc'')"
    using processNetCDFFile_filename [of "''R12_3nc''"] n by simp
  have "''xR12_3.ncy'' = ''x'' @ ''R'' @ ''12'' @ ''_'' @ ''3'' @ ''.nc'' @ ''y''
          \<and> digits1 ''12'' \<and> digits1 ''3''"
    by (simp add: digits1_def is_digit_def)
  then have "\<exists>pre g1 g2 post. ''xR12_3.ncy'' = pre @ ''R'' @ g1 @ ''_'' @ g2 @ ''.nc'' @ post
               \<and> digits1 g1 \<and> digits1 g2"
    by blast
  with processNetCDFFile_filename [of "''xR12_3.ncy''"]
  have c: "\<exists>p. processNetCDFFile ''xR12_3.ncy'' = Inr p" by blast
  from c a d n b show ?thesis by blast
qed

section \<open>The float id of a query\<close>

text \<open>
  The matcher as a list, where the order of its attempts counts: a repetition offers its
  longest match first.
\<close>

lemma run_Seq_Chr:
  "run (Seq (Chr P) b) (s, c) = (case s of [] \<Rightarrow> [] | x # xs \<Rightarrow> if P x then run b (xs, c) else [])"
  by (cases s) (simp_all add: run.simps(1,3))

lemma run_lits_i:
  "run (lits_i t) (s, c) =
     (if length t \<le> length s \<and> map lower_char (take (length t) s) = t
      then [(drop (length t) s, c)] else [])"
proof (induction t arbitrary: s)
  case Nil
  show ?case by (simp add: lits_i_def run.simps(2))
next
  case (Cons k t)
  have "lits_i (k # t) = Seq (Chr (\<lambda>x. lower_char x = k)) (lits_i t)"
    by (simp add: lits_i_def lit_i_def)
  then show ?case
    by (cases s) (auto simp: run_Seq_Chr Cons.IH)
qed

lemma run_Plus_Chr:
  "run (Plus (Chr P)) (s, c) =
     (case s of [] \<Rightarrow> [] | x # xs \<Rightarrow> if P x then run (Star (Chr P)) (xs, c) else [])"
  by (simp add: Plus_def run_Seq_Chr)

lemma run_Star_first:
  "\<exists>rest. run (Star (Chr P)) (s, c) = (dropWhile P s, c) # rest"
proof (induction s)
  case Nil
  show ?case by (simp add: run_Star_Chr_Nil)
next
  case (Cons x xs)
  then obtain rest where "run (Star (Chr P)) (xs, c) = (dropWhile P xs, c) # rest" by blast
  then show ?case by (simp add: run_Star_Chr_Cons)
qed

lemma length_dropWhile_take: "take (length s - length (dropWhile P s)) s = takeWhile P s"
proof -
  have "length s = length (takeWhile P s) + length (dropWhile P s)"
    by (metis length_append takeWhile_dropWhile_id)
  then have "length s - length (dropWhile P s) = length (takeWhile P s)" by simp
  then show ?thesis by (metis append_eq_conv_conj takeWhile_dropWhile_id)
qed

lemma run_digits_group:
  "run (Grp i (Plus digit)) (s, c) = [] \<longleftrightarrow> takeWhile is_digit s = []"
  "takeWhile is_digit s \<noteq> [] \<Longrightarrow>
     \<exists>rest. run (Grp i (Plus digit)) (s, c) =
              (dropWhile is_digit s, (i, takeWhile is_digit s) # c) # rest"
proof -
  show "run (Grp i (Plus digit)) (s, c) = [] \<longleftrightarrow> takeWhile is_digit s = []"
  proof (cases s)
    case Nil
    then show ?thesis by (simp add: run.simps(6) digit_def run_Plus_Chr)
  next
    case (Cons x xs)
    obtain rest where "run (Star (Chr is_digit)) (xs, c) = (dropWhile is_digit xs, c) # rest"
      using run_Star_first by blast
    with Cons show ?thesis by (simp add: run.simps(6) digit_def run_Plus_Chr)
  qed
next
  assume "takeWhile is_digit s \<noteq> []"
  then obtain x xs where s: "s = x # xs" "is_digit x" by (cases s) (auto split: if_splits)
  obtain rest where r: "run (Star (Chr is_digit)) (xs, c) = (dropWhile is_digit xs, c) # rest"
    using run_Star_first by blast
  have "take (length s - length (dropWhile is_digit s)) s = takeWhile is_digit s"
    by (rule length_dropWhile_take)
  with s have "take (Suc (length xs) - length (dropWhile is_digit xs)) (x # xs) = x # takeWhile is_digit xs"
    by simp
  with s r show "\<exists>rest. run (Grp i (Plus digit)) (s, c) =
              (dropWhile is_digit s, (i, takeWhile is_digit s) # c) # rest"
    by (simp add: run.simps(6) digit_def run_Plus_Chr)
qed

lemma exec_at_digits7:
  "exec_at re_digits7 s =
     (if 7 \<le> length s \<and> list_all is_digit (take 7 s) then Some (map_of [(1, take 7 s)])
      else None)"
proof -
  have "run re_digits7 (s, []) =
          (if 7 \<le> length s \<and> list_all is_digit (take 7 s) then [(drop 7 s, [(1, take 7 s)])]
           else [])"
    by (simp add: re_digits7_def run.simps(6) digit_def run_Seq_Chr run.simps(1)
          split: list.splits)
  then show ?thesis by (simp add: exec_at_def)
qed

lemma p_floatId_extractParameters:
  "p_floatId (extractParameters query) =
     (case (case match query re_float of Some m \<Rightarrow> Some m | None \<Rightarrow> match query re_digits7) of
        None \<Rightarrow> None | Some m \<Rightarrow> m 1)"
  by (simp add: extractParameters_def Let_def)

lemma white_space_nonempty: "w \<in> set white_space \<Longrightarrow> w \<noteq> []"
  by (auto simp: white_space_def)

lemma white_space_bytes:
  "w \<in> set white_space \<Longrightarrow> b \<in> set w \<Longrightarrow> b \<notin> set ''float'' \<and> \<not> is_digit b"
  by (auto simp: white_space_def is_digit_def)

lemma space_length_words:
  "list_all (\<lambda>w. \<forall>rest. space_length (w @ rest) = length w) white_space"
  by (simp add: white_space_def space_length_def)

lemma space_length_word: "w \<in> set white_space \<Longrightarrow> space_length (w @ rest) = length w"
  using space_length_words by (simp add: list_all_iff)

lemma space_length_pos:
  assumes "0 < space_length s"
  obtains w rest where "w \<in> set white_space" and "s = w @ rest" and "space_length s = length w"
proof -
  from assms obtain w where f: "find (startsWith s) white_space = Some w"
    and l: "space_length s = length w"
    by (auto simp: space_length_def split: option.splits)
  from f obtain i where "i < length white_space" "startsWith s (white_space ! i)"
    "w = white_space ! i"
    unfolding find_Some_iff by blast
  then have "w \<in> set white_space" and "startsWith s w" by simp_all
  then obtain rest where r: "s = w @ rest" using startsWith_iff by blast
  from \<open>w \<in> set white_space\<close> r l show thesis by (rule that)
qed

lemma run_space:
  "run space (s, c) = (if 0 < space_length s then [(drop (space_length s) s, c)] else [])"
  by (simp add: space_def run.simps(7))

lemma run_Star_space:
  "run (Star space) (s, c) =
     (if 0 < space_length s then run (Star space) (drop (space_length s) s, c) @ [(s, c)]
      else [(s, c)])"
proof (cases "0 < space_length s")
  case False
  then show ?thesis by (simp add: run.simps(5) [of space s c] run_space)
next
  case True
  then obtain w rest where w: "w \<in> set white_space" "s = w @ rest" "space_length s = length w"
    by (rule space_length_pos)
  from w(1) have "w \<noteq> []" by (rule white_space_nonempty)
  with w have "length (drop (space_length s) s) < length s" by simp
  with True show ?thesis by (simp add: run.simps(5) [of space s c] run_space)
qed

lemma run_Star_space_D:
  "(r, c') \<in> set (run (Star space) (s, c)) \<Longrightarrow>
     c' = c \<and> (\<exists>wss. set wss \<subseteq> set white_space \<and> s = concat wss @ r)"
proof (induction "length s" arbitrary: s rule: less_induct)
  case less
  have here: "c = c \<and> (\<exists>wss. set wss \<subseteq> set white_space \<and> s = concat wss @ s)"
    by (intro conjI exI [of _ "[]"]) simp_all
  show ?case
  proof (cases "0 < space_length s")
    case False
    with less.prems have "r = s" "c' = c" by (simp_all add: run_Star_space)
    with here show ?thesis by simp
  next
    case True
    then obtain w rest where w: "w \<in> set white_space" "s = w @ rest" "space_length s = length w"
      by (rule space_length_pos)
    from w(1) have ne: "w \<noteq> []" by (rule white_space_nonempty)
    from w have d: "drop (space_length s) s = rest" by simp
    from less.prems True d consider "(r, c') \<in> set (run (Star space) (rest, c))" | "r = s" "c' = c"
      by (auto simp: run_Star_space [of s c])
    then show ?thesis
    proof cases
      case 1
      from w(2) ne have "length rest < length s" by simp
      from less.hyps [OF this 1] obtain wss where "c' = c" "set wss \<subseteq> set white_space"
        "rest = concat wss @ r" by blast
      with w have "c' = c \<and> set (w # wss) \<subseteq> set white_space \<and> s = concat (w # wss) @ r"
        by simp
      then show ?thesis by blast
    next
      case 2
      with here show ?thesis by simp
    qed
  qed
qed

lemma run_Star_space_I:
  "set wss \<subseteq> set white_space \<Longrightarrow> (r, c) \<in> set (run (Star space) (concat wss @ r, c))"
proof (induction wss)
  case Nil
  show ?case by (simp add: run_Star_space [of r c])
next
  case (Cons w wss)
  then have w: "w \<in> set white_space" and IH: "(r, c) \<in> set (run (Star space) (concat wss @ r, c))"
    by simp_all
  from w have ne: "w \<noteq> []" by (rule white_space_nonempty)
  have l: "space_length (w @ concat wss @ r) = length w" using w by (rule space_length_word)
  have "run (Star space) (w @ concat wss @ r, c) =
          run (Star space) (concat wss @ r, c) @ [(w @ concat wss @ r, c)]"
    using ne by (simp add: run_Star_space [of "w @ concat wss @ r" c] l)
  with IH show ?case by simp
qed

lemma run_Plus_space_D:
  assumes "(r, c') \<in> set (run (Plus space) (s, c))"
  shows "c' = c \<and> (\<exists>wss. wss \<noteq> [] \<and> set wss \<subseteq> set white_space \<and> s = concat wss @ r)"
proof -
  from assms obtain r1 c1 where a: "(r1, c1) \<in> set (run space (s, c))"
    and b: "(r, c') \<in> set (run (Star space) (r1, c1))"
    unfolding Plus_def run_Seq_mem by auto
  from a have p: "0 < space_length s" and r1: "r1 = drop (space_length s) s" and c1: "c1 = c"
    by (auto simp: run_space split: if_splits)
  from p obtain w rest where w: "w \<in> set white_space" "s = w @ rest" "space_length s = length w"
    by (rule space_length_pos)
  with r1 have "r1 = rest" by simp
  with run_Star_space_D [OF b] c1 obtain wss where "c' = c" "set wss \<subseteq> set white_space"
    "rest = concat wss @ r" by blast
  with w have "c' = c \<and> w # wss \<noteq> [] \<and> set (w # wss) \<subseteq> set white_space
                 \<and> s = concat (w # wss) @ r"
    by simp
  then show ?thesis by blast
qed

lemma run_Plus_space_I:
  assumes "wss \<noteq> []" and "set wss \<subseteq> set white_space"
  shows "(r, c) \<in> set (run (Plus space) (concat wss @ r, c))"
proof -
  from assms obtain w wss' where wss: "wss = w # wss'" "w \<in> set white_space"
    "set wss' \<subseteq> set white_space"
    by (cases wss) auto
  from wss(2) have ne: "w \<noteq> []" by (rule white_space_nonempty)
  have l: "space_length (w @ concat wss' @ r) = length w" using wss(2) by (rule space_length_word)
  with ne have "(concat wss' @ r, c) \<in> set (run space (w @ concat wss' @ r, c))"
    by (simp add: run_space)
  moreover have "(r, c) \<in> set (run (Star space) (concat wss' @ r, c))"
    using wss(3) by (rule run_Star_space_I)
  ultimately have "(r, c) \<in> set (run (Plus space) (w @ concat wss' @ r, c))"
    unfolding Plus_def run_Seq_mem by blast
  with wss(1) show ?thesis by simp
qed

lemma spaces_bytes:
  assumes "set wss \<subseteq> set white_space" and "b \<in> set (concat wss)"
  shows "b \<notin> set ''float'' \<and> \<not> is_digit b"
proof -
  from assms(2) obtain w where "w \<in> set wss" "b \<in> set w" by auto
  with assms(1) show ?thesis using white_space_bytes by blast
qed

lemma spaces_nonempty:
  assumes "wss \<noteq> []" and "set wss \<subseteq> set white_space"
  shows "concat wss \<noteq> []"
proof -
  from assms obtain w where "w \<in> set wss" "w \<in> set white_space" by (cases wss) auto
  with white_space_nonempty [of w] show ?thesis by auto
qed

lemma run_lits_i_float:
  "run (lits_i ''float'') (s, c) =
     (if 5 \<le> length s \<and> map lower_char (take 5 s) = ''float'' then [(drop 5 s, c)] else [])"
proof -
  have len: "length ''float'' = 5" by simp
  show ?thesis by (simp only: run_lits_i len)
qed

lemma exec_at_float_D:
  assumes "exec_at re_float s \<noteq> None"
  obtains fl wss g rest where "s = fl @ concat wss @ g @ rest" and "length fl = 5"
    and "map lower_char fl = ''float''" and "wss \<noteq> []" and "set wss \<subseteq> set white_space"
    and "digits1 g"
proof -
  from assms obtain rest caps where "(rest, caps) \<in> set (run re_float (s, []))"
    using exec_at_Some [of re_float s] by auto
  then obtain r1 c1 r2 c2 where a: "(r1, c1) \<in> set (run (lits_i ''float'') (s, []))"
    and b: "(r2, c2) \<in> set (run (Plus space) (r1, c1))"
    and c: "(rest, caps) \<in> set (run (Grp 1 (Plus digit)) (r2, c2))"
    unfolding re_float_def run_Seq_mem by auto
  from a have fl: "5 \<le> length s" "map lower_char (take 5 s) = ''float''" "r1 = drop 5 s"
    by (auto simp: run_lits_i_float split: if_splits)
  from run_Plus_space_D [OF b] obtain wss where wss: "wss \<noteq> []" "set wss \<subseteq> set white_space"
    "r1 = concat wss @ r2" by blast
  from c obtain g where g: "r2 = g @ rest" "digits1 g" unfolding run_digits_group_mem by blast
  have "s = take 5 s @ drop 5 s" by simp
  with fl(3) wss(3) g(1) have e1: "s = take 5 s @ concat wss @ g @ rest" by simp
  from fl(1) have e2: "length (take 5 s) = 5" by simp
  from e1 e2 fl(2) wss(1,2) g(2) show thesis by (rule that)
qed

lemma exec_at_float_I:
  assumes "length fl = 5" and "map lower_char fl = ''float''"
    and "wss \<noteq> []" and "set wss \<subseteq> set white_space" and "digits1 g"
  shows "exec_at re_float (fl @ concat wss @ g @ rest) \<noteq> None"
proof -
  have a: "(concat wss @ g @ rest, []) \<in> set (run (lits_i ''float'') (fl @ concat wss @ g @ rest, []))"
    using assms(1,2) by (simp add: run_lits_i_float)
  have b: "(g @ rest, []) \<in> set (run (Plus space) (concat wss @ g @ rest, []))"
    using assms(3,4) by (rule run_Plus_space_I)
  have c: "(rest, [(1, g)]) \<in> set (run (Grp 1 (Plus digit)) (g @ rest, []))"
    unfolding run_digits_group_mem using assms(5) by blast
  have "(rest, [(1, g)]) \<in> set (run (Seq (Plus space) (Grp 1 (Plus digit))) (concat wss @ g @ rest, []))"
    unfolding run_Seq_mem using b c by (rule bexI [rotated])
  with a have "(rest, [(1, g)]) \<in> set (run re_float (fl @ concat wss @ g @ rest, []))"
    unfolding re_float_def run_Seq_mem [of _ "lits_i ''float''"] by (rule bexI [rotated])
  then have "run re_float (fl @ concat wss @ g @ rest, []) \<noteq> []" by auto
  then show ?thesis by (simp add: exec_at_None)
qed

lemma position_cases:
  assumes "pre @ x = a @ suf"
  obtains (before) p2 where "p2 \<noteq> []" and "pre = a @ p2" and "suf = p2 @ x"
    | (at) "a = pre" and "suf = x"
    | (after) y where "y \<noteq> []" and "a = pre @ y" and "x = y @ suf"
proof -
  from assms consider us where "pre = a @ us" "us @ x = suf"
    | us where "pre @ us = a" "x = us @ suf"
    unfolding append_eq_append_conv2 by blast
  then show thesis
  proof cases
    case 1
    show ?thesis
    proof (cases "us = []")
      case True
      with 1 have "a = pre" "suf = x" by simp_all
      then show ?thesis by (rule at)
    next
      case False
      from False 1(1) 1(2) [symmetric] show ?thesis by (rule before)
    qed
  next
    case 2
    show ?thesis
    proof (cases "us = []")
      case True
      with 2 have "a = pre" "suf = x" by simp_all
      then show ?thesis by (rule at)
    next
      case False
      from False 2(1) [symmetric] 2(2) show ?thesis by (rule after)
    qed
  qed
qed

lemma float_match_inside:
  assumes s: "p2 @ ''float 5906468'' @ post = fl @ W @ g @ rest"
    and p2: "p2 \<noteq> []" and fl: "length fl = 5" and W: "W \<noteq> []"
    and bytes: "\<And>b. b \<in> set W \<Longrightarrow> b \<notin> set ''float'' \<and> \<not> is_digit b"
    and g: "g \<noteq> []" "is_digit (hd g)"
  shows "\<exists>rest'. p2 = fl @ W @ [hd g] @ rest'"
proof -
  let ?s = "p2 @ ''float 5906468'' @ post"
  let ?n = "length p2"
  have f: "?s ! ?n = CHR ''f''" by (simp add: nth_append)
  have long: "5 + length W < ?n"
  proof (rule ccontr)
    assume "\<not> 5 + length W < ?n"
    then consider "?n < 5" | "5 \<le> ?n" "?n < 5 + length W" | "?n = 5 + length W" by linarith
    then show False
    proof cases
      case 1
      from W have "(fl @ W @ g @ rest) ! 5 = W ! 0"
        by (simp add: nth_append fl)
      with W have "(fl @ W @ g @ rest) ! 5 \<in> set W" by simp
      with s have w: "?s ! 5 \<in> set W" by simp
      from p2 have "0 < ?n" by simp
      with 1 have "?n = 1 \<or> ?n = 2 \<or> ?n = 3 \<or> ?n = 4" by arith
      then consider "?n = 1" | "?n = 2" | "?n = 3" | "?n = 4" by blast
      then have "?s ! 5 \<in> set ''float''"
        by cases (simp_all add: nth_append)
      with w bytes show False by blast
    next
      case 2
      from 2 have k: "?n - 5 < length W" "\<not> ?n < 5" by arith+
      then have "(fl @ W @ g @ rest) ! ?n = W ! (?n - 5)"
        by (simp add: nth_append fl)
      with k have "(fl @ W @ g @ rest) ! ?n \<in> set W" by simp
      with s f have "CHR ''f'' \<in> set W" by simp
      with bytes show False by fastforce
    next
      case 3
      with g(1) have "(fl @ W @ g @ rest) ! ?n = hd g"
        by (cases g) (simp_all add: nth_append fl)
      with s f g(2) show False by (simp add: is_digit_def)
    qed
  qed
  let ?k = "6 + length W"
  from g(1) have "take ?k (fl @ W @ g @ rest) = fl @ W @ [hd g]"
    by (cases g) (simp_all add: fl)
  with s have "take ?k ?s = fl @ W @ [hd g]" by simp
  moreover from long have "take ?k ?s = take ?k p2" by simp
  ultimately have "take ?k p2 = fl @ W @ [hd g]" by simp
  then have "p2 = fl @ W @ [hd g] @ drop ?k p2"
    by (metis append.assoc append_take_drop_id)
  then show ?thesis by blast
qed

lemma float_match_in_prefix:
  assumes "exec_at re_float (p2 @ ''float 5906468'' @ post) \<noteq> None" and "p2 \<noteq> []"
  shows "exec_at re_float p2 \<noteq> None"
proof -
  from assms(1) obtain fl wss g rest
    where s: "p2 @ ''float 5906468'' @ post = fl @ concat wss @ g @ rest"
      and fl: "length fl = 5" "map lower_char fl = ''float''"
      and wss: "wss \<noteq> []" "set wss \<subseteq> set white_space" and g: "digits1 g"
    by (rule exec_at_float_D)
  from wss have W: "concat wss \<noteq> []" by (rule spaces_nonempty)
  from g have g': "g \<noteq> []" "is_digit (hd g)" by (cases g; simp add: digits1_def)+
  from float_match_inside [OF s assms(2) fl(1) W spaces_bytes [OF wss(2)] g']
  obtain rest' where "p2 = fl @ concat wss @ [hd g] @ rest'" by blast
  moreover from g'(2) have "digits1 [hd g]" by (simp add: digits1_def)
  ultimately show ?thesis using exec_at_float_I [OF fl wss] by metis
qed

lemma token_digits:
  "\<not> starts_with_digit post \<Longrightarrow> takeWhile is_digit (''5906468'' @ post) = ''5906468''"
  by (cases post) (simp_all add: starts_with_digit_def is_digit_def)

lemma exec_at_float_token:
  assumes "\<not> starts_with_digit post"
  shows "\<exists>m. exec_at re_float (''float 5906468'' @ post) = Some m \<and> m 1 = Some ''5906468''"
proof -
  let ?G = "Grp 1 (Plus digit)"
  have t: "takeWhile is_digit (''5906468'' @ post) = ''5906468''"
    using assms by (rule token_digits)
  then have "takeWhile is_digit (''5906468'' @ post) \<noteq> []" by simp
  from run_digits_group(2) [OF this, of 1 "[]"] obtain rest
    where g: "run ?G (''5906468'' @ post, []) =
               (dropWhile is_digit (''5906468'' @ post), [(1, ''5906468'')]) # rest"
    unfolding t by blast
  have a: "run (lits_i ''float'') (''float 5906468'' @ post, []) = [('' 5906468'' @ post, [])]"
    by (simp add: run_lits_i_float lower_char_def upper_letters_def lower_letters_def)
  have l1: "space_length ('' 5906468'' @ post) = 1"
    by (simp add: space_length_def white_space_def)
  have l0: "space_length (''5906468'' @ post) = 0"
    by (simp add: space_length_def white_space_def)
  have s1: "run space ('' 5906468'' @ post, []) = [(''5906468'' @ post, [])]"
    unfolding run_space l1 by simp
  have s2: "run (Star space) (''5906468'' @ post, []) = [(''5906468'' @ post, [])]"
    by (subst run_Star_space) (simp only: l0 less_numeral_extra(3) if_False)
  have b: "run (Plus space) ('' 5906468'' @ post, []) = [(''5906468'' @ post, [])]"
    using s1 s2 by (simp add: Plus_def run.simps(3))
  have "run re_float (''float 5906468'' @ post, []) =
          (dropWhile is_digit (''5906468'' @ post), [(1, ''5906468'')]) # rest"
    by (simp only: re_float_def run.simps(3) a b g list.map concat.simps append_Nil2)
  then have "exec_at re_float (''float 5906468'' @ post) = Some (map_of [(1, ''5906468'')])"
    by (simp add: exec_at_def)
  then show ?thesis by simp
qed

lemma floatId_float_token:
  assumes pre: "match pre re_float = None" and post: "\<not> starts_with_digit post"
  shows "p_floatId (extractParameters (pre @ ''float 5906468'' @ post)) = Some ''5906468''"
proof -
  let ?x = "''float 5906468'' @ post"
  let ?q = "pre @ ?x"
  from exec_at_float_token [OF post] obtain m0
    where e: "exec_at re_float ?x = Some m0" and m0: "m0 1 = Some ''5906468''" by blast
  have "match ?q re_float \<noteq> None"
  proof
    assume "match ?q re_float = None"
    then have "\<forall>pre' suf. ?q = pre' @ suf \<longrightarrow> exec_at re_float suf = None"
      by (simp only: match_None)
    from this [rule_format, of pre ?x] e show False by simp
  qed
  then obtain m where m: "match ?q re_float = Some m"
    by (cases "match ?q re_float") simp_all
  from match_Some [OF m] obtain a suf where q: "?q = a @ suf"
    and s: "exec_at re_float suf = Some m"
    and least: "\<forall>pre' suf'. ?q = pre' @ suf' \<and> length pre' < length a
                  \<longrightarrow> exec_at re_float suf' = None"
    by blast
  from q have "m 1 = Some ''5906468''"
  proof (cases rule: position_cases)
    case (before p2)
    from s before(3) have "exec_at re_float (p2 @ ''float 5906468'' @ post) \<noteq> None" by simp
    from float_match_in_prefix [OF this before(1)] have "exec_at re_float p2 \<noteq> None" .
    moreover from pre have "\<forall>pre' suf. pre = pre' @ suf \<longrightarrow> exec_at re_float suf = None"
      by (simp only: match_None)
    from this [rule_format, of a p2] before(2) have "exec_at re_float p2 = None" by simp
    ultimately show ?thesis by simp
  next
    case at
    with s e m0 show ?thesis by simp
  next
    case (after y)
    then have "length pre < length a" by simp
    with least [rule_format, of pre ?x] have "exec_at re_float ?x = None" by simp
    with e show ?thesis by simp
  qed
  with m show ?thesis by (simp add: p_floatId_extractParameters)
qed

lemma floatId_bare_token:
  assumes nofloat: "match (pre @ ''5906468'' @ post) re_float = None"
    and pre7: "match pre re_digits7 = None" and pre: "\<not> ends_with_digit pre"
  shows "p_floatId (extractParameters (pre @ ''5906468'' @ post)) = Some ''5906468''"
proof -
  let ?x = "''5906468'' @ post"
  let ?q = "pre @ ?x"
  have e: "exec_at re_digits7 ?x = Some (map_of [(1, ''5906468'')])"
    by (simp add: exec_at_digits7 is_digit_def)
  have "match ?q re_digits7 \<noteq> None"
  proof
    assume "match ?q re_digits7 = None"
    then have "\<forall>pre' suf. ?q = pre' @ suf \<longrightarrow> exec_at re_digits7 suf = None"
      by (simp only: match_None)
    from this [rule_format, of pre ?x] e show False by simp
  qed
  then obtain m where m: "match ?q re_digits7 = Some m"
    by (cases "match ?q re_digits7") simp_all
  from match_Some [OF m] obtain a suf where q: "?q = a @ suf"
    and s: "exec_at re_digits7 suf = Some m"
    and least: "\<forall>pre' suf'. ?q = pre' @ suf' \<and> length pre' < length a
                  \<longrightarrow> exec_at re_digits7 suf' = None"
    by blast
  from s have l: "7 \<le> length suf" and d: "list_all is_digit (take 7 suf)"
    by (auto simp: exec_at_digits7 split: if_splits)
  from q have "m 1 = Some ''5906468''"
  proof (cases rule: position_cases)
    case (before p2)
    show ?thesis
    proof (cases "7 \<le> length p2")
      case True
      with d before(3) have "exec_at re_digits7 p2 \<noteq> None"
        by (simp add: exec_at_digits7)
      moreover from pre7 have "\<forall>pre' suf. pre = pre' @ suf \<longrightarrow> exec_at re_digits7 suf = None"
        by (simp only: match_None)
      from this [rule_format, of a p2] before(2) have "exec_at re_digits7 p2 = None" by simp
      ultimately show ?thesis by simp
    next
      case False
      with d before(3) have "list_all is_digit p2" by simp
      with before(1) have "is_digit (last p2)" by (simp add: list_all_iff)
      moreover from before(1) have "p2 = butlast p2 @ [last p2]" by simp
      then have "rev p2 = last p2 # rev (butlast p2)" by (metis rev.simps(2) rev_rev_ident rev_swap append_Cons append_Nil rev_append)
      with before(2) have "rev pre = last p2 # rev (butlast p2) @ rev a" by simp
      ultimately have "ends_with_digit pre"
        by (simp add: ends_with_digit_def starts_with_digit_def)
      with pre show ?thesis by simp
    qed
  next
    case at
    with s e show ?thesis by simp
  next
    case (after y)
    then have "length pre < length a" by simp
    with least [rule_format, of pre ?x] have "exec_at re_digits7 ?x = None" by simp
    with e show ?thesis by simp
  qed
  with m nofloat show ?thesis by (simp add: p_floatId_extractParameters)
qed

text \<open>
  Claim C6, as amended. A query that holds "float 5906468" has the float id "5906468"
  when the pattern "float N" does not match in the text before it and no digit follows it.
  A query that holds the bare token "5906468" has the float id "5906468" when the pattern
  "float N" does not match the query, the text before the token holds no run of seven
  digits and does not end with a digit. The pattern "float N" is tried first and the
  pattern of seven digits only when it does not match.
\<close>

theorem extractParameters_floatId:
  "(match pre re_float = None \<longrightarrow> \<not> starts_with_digit post \<longrightarrow>
      p_floatId (extractParameters (pre @ ''float 5906468'' @ post)) = Some ''5906468'')
   \<and> (match (pre @ ''5906468'' @ post) re_float = None \<longrightarrow> match pre re_digits7 = None \<longrightarrow>
        \<not> ends_with_digit pre \<longrightarrow>
        p_floatId (extractParameters (pre @ ''5906468'' @ post)) = Some ''5906468'')"
  using floatId_float_token floatId_bare_token by blast

text \<open>
  Claim C6 as stated fails: each of these queries contains "float 5906468" or the token
  "5906468", and its float id is another one, from an earlier "float N", from a longer run
  of digits after "float", or from an earlier run of seven digits.
\<close>

theorem extractParameters_floatId_counterexample:
  "includes_str ''float 12 and float 5906468'' ''float 5906468''
   \<and> p_floatId (extractParameters ''float 12 and float 5906468'') = Some ''12''
   \<and> includes_str ''float 59064689'' ''float 5906468''
   \<and> p_floatId (extractParameters ''float 59064689'') = Some ''59064689''
   \<and> includes_str ''1234567 and 5906468'' ''5906468''
   \<and> p_floatId (extractParameters ''1234567 and 5906468'') = Some ''1234567''"
  by (simp add: extract_defs regex_defs run.simps)

text \<open>
  Claim C6, as amended, at the two queries of the specification and inside a sentence that
  goes on with a depth. The bare token is not matched by "float N" and is found by the
  seven digits.
\<close>

theorem extractParameters_floatId_witness:
  "match [] re_float = None \<and> \<not> starts_with_digit []
   \<and> p_floatId (extractParameters ''float 5906468'') = Some ''5906468''
   \<and> match ''Show '' re_float = None \<and> \<not> starts_with_digit '' at 500m''
   \<and> p_floatId (extractParameters ''Show float 5906468 at 500m'') = Some ''5906468''
   \<and> match ''5906468'' re_float = None \<and> match [] re_digits7 = None \<and> \<not> ends_with_digit []
   \<and> p_floatId (extractParameters ''5906468'') = Some ''5906468''
   \<and> match ''Show 5906468 at 500m'' re_float = None \<and> match ''Show '' re_digits7 = None
   \<and> \<not> ends_with_digit ''Show ''
   \<and> p_floatId (extractParameters ''Show 5906468 at 500m'') = Some ''5906468''"
proof -
  have a: "match [] re_float = None" "match ''Show '' re_float = None"
    "match ''5906468'' re_float = None" "match ''Show 5906468 at 500m'' re_float = None"
    by (simp_all add: re_float_def regex_defs run.simps)
  have b: "match [] re_digits7 = None" "match ''Show '' re_digits7 = None"
    by (simp_all add: re_digits7_def regex_defs run.simps)
  have c: "\<not> starts_with_digit []" "\<not> starts_with_digit '' at 500m''"
    "\<not> ends_with_digit []" "\<not> ends_with_digit ''Show ''"
    by (simp_all add: starts_with_digit_def ends_with_digit_def is_digit_def)
  from extractParameters_floatId [of "[]" "[]"] a(1) c(1)
  have r1: "p_floatId (extractParameters ''float 5906468'') = Some ''5906468''" by simp
  from extractParameters_floatId [of "''Show ''" "'' at 500m''"] a(2) c(2)
  have r2: "p_floatId (extractParameters ''Show float 5906468 at 500m'') = Some ''5906468''"
    by simp
  from extractParameters_floatId [of "[]" "[]"] a(3) b(1) c(3)
  have r3: "p_floatId (extractParameters ''5906468'') = Some ''5906468''" by simp
  from extractParameters_floatId [of "''Show ''" "'' at 500m''"] a(4) b(2) c(4)
  have r4: "p_floatId (extractParameters ''Show 5906468 at 500m'') = Some ''5906468''" by simp
  from a b c r1 r2 r3 r4 show ?thesis by simp
qed

end
